theory Spec2Isabelle
  imports Complex_Main "HOL-Library.Sublist"
begin

section \<open>Strings as festival.py uses them\<close>

text \<open>
  Python strings are modelled as \<open>string\<close>. The program only lower-cases, compares, slices
  and searches them. \<open>str.lower()\<close> is modelled on the ASCII letters (the 26 pairs below);
  every other character is left as it is.
\<close>

definition lower_char :: "char \<Rightarrow> char" where
  "lower_char c =
     (case map_of (zip ''ABCDEFGHIJKLMNOPQRSTUVWXYZ'' ''abcdefghijklmnopqrstuvwxyz'') c of
        Some d \<Rightarrow> d
      | None \<Rightarrow> c)"

definition lower :: "string \<Rightarrow> string" where
  "lower s = map lower_char s"

text \<open>\<open>s.startswith(p)\<close>.\<close>

fun startswith :: "string \<Rightarrow> string \<Rightarrow> bool" where
  "startswith s [] = True"
| "startswith [] (p # ps) = False"
| "startswith (c # s) (p # ps) = (c = p \<and> startswith s ps)"

text \<open>\<open>sub in s\<close> on strings: \<open>sub\<close> occurs in \<open>s\<close> as a contiguous run.\<close>

fun contains :: "string \<Rightarrow> string \<Rightarrow> bool" where
  "contains sub [] = (sub = [])"
| "contains sub (c # s) = (startswith (c # s) sub \<or> contains sub s)"

text \<open>\<open>str(n)\<close> for a length or a batch number, and \<open>str(b)\<close> for a flag.\<close>

definition digit_char :: "nat \<Rightarrow> char" where
  "digit_char d = ''0123456789'' ! d"

function str_nat :: "nat \<Rightarrow> string" where
  "str_nat n = (if n < 10 then [digit_char n] else str_nat (n div 10) @ [digit_char (n mod 10)])"
  by pat_completeness auto
termination
  by (relation "measure (\<lambda>n. n)") auto

declare str_nat.simps [simp del]

definition str_bool :: "bool \<Rightarrow> string" where
  "str_bool b = (if b then ''True'' else ''False'')"

text \<open>\<open>', '.join(xs)\<close>.\<close>

fun join_comma :: "string list \<Rightarrow> string" where
  "join_comma [] = []"
| "join_comma [x] = x"
| "join_comma (x # y # ys) = x @ '', '' @ join_comma (y # ys)"

section \<open>Data\<close>

text \<open>
  An item of the search response and a track of the top-tracks response, with the keys the
  program reads; \<open>ArtistData\<close> and \<open>SongData\<close> are the dictionaries the workers build.
\<close>

record item =
  item_name :: string
  item_id :: string
  item_genres :: "string list"

record track =
  track_name :: string
  track_id :: string

record artist_data =
  a_name :: string
  a_id :: string
  a_genres :: "string list"

record song_data =
  s_id :: string
  s_name :: string
  s_artist_name :: string
  s_artist_id :: string

text \<open>
  Exceptions, with the text \<open>str(e)\<close> the handlers print. The two handlers of
  \<open>fetch_top_songs\<close> tell \<open>SpotifyException\<close> from every other exception.
\<close>

datatype exn =
    SpotifyException string
  | NameError string
  | IndexError
  | OtherException string

fun str_exn :: "exn \<Rightarrow> string" where
  "str_exn (SpotifyException m) = m"
| "str_exn (NameError n) = ''name '' @ [CHR 0x27] @ n @ [CHR 0x27] @ '' is not defined''"
| "str_exn IndexError = ''list index out of range''"
| "str_exn (OtherException m) = m"

text \<open>
  The Spotify client \<open>sp\<close>: each call either raises or returns the part of the response
  the program reads. A response is taken to depend on the arguments of the call only.
\<close>

record spotify =
  search :: "string \<Rightarrow> exn + item list"
  artist_top_tracks :: "string \<Rightarrow> exn + track list"
  user_playlist_create :: "string \<Rightarrow> string \<Rightarrow> exn + string"
  user_playlist_add_tracks :: "string \<Rightarrow> string \<Rightarrow> string list \<Rightarrow> exn + unit"

section \<open>fetch_top_songs\<close>

definition remixes_allowed_genres :: "string list" where
  "remixes_allowed_genres =
     [''house'', ''dub'', ''trance'', ''breakbeat'', ''bass'', ''techno'', ''edm'', ''dance'']"

text \<open>Line 209: \<open>any(remix_genre in genre for genre in artist_genres for remix_genre in remixes_allowed)\<close>.\<close>

definition allow_remixes :: "string list \<Rightarrow> string list \<Rightarrow> bool" where
  "allow_remixes genres remixes_allowed =
     list_ex (\<lambda>genre. list_ex (\<lambda>remix_genre. contains remix_genre genre) remixes_allowed) genres"

text \<open>Lines 229-233.\<close>

definition is_remix :: "string \<Rightarrow> bool" where
  "is_remix song_name =
     (contains ''remix'' (lower song_name) \<or>
      (contains ''edit'' (lower song_name) \<and>
       \<not> contains ''radio edit'' (lower song_name) \<and>
       \<not> contains ''album edit'' (lower song_name)))"

definition added_log :: "track \<Rightarrow> string" where
  "added_log t = ''  > ADDED: '' @ [CHR 0x27] @ track_name t @ [CHR 0x27] @ '' | ID: '' @ track_id t"

definition skipped_log :: "track \<Rightarrow> string" where
  "skipped_log t =
     ''  > SKIPPED: '' @ [CHR 0x27] @ track_name t @ [CHR 0x27] @
     '' (Remix/Edit detected and not allowed by genre.)''"

text \<open>
  The loop of lines 224-244 over \<open>all_tracks[:10]\<close>, with \<open>tracks_to_add\<close> and \<open>logs\<close> as
  the state; the \<open>break\<close> of line 244 ends the recursion.
\<close>

fun scan_tracks :: "bool \<Rightarrow> track list \<Rightarrow> track list \<times> string list \<Rightarrow> track list \<times> string list" where
  "scan_tracks allow_remixes_flag [] (tracks_to_add, logs) = (tracks_to_add, logs)"
| "scan_tracks allow_remixes_flag (t # rest) (tracks_to_add, logs) =
     (let st = (if allow_remixes_flag \<or> \<not> is_remix (track_name t)
                then (tracks_to_add @ [t], logs @ [added_log t])
                else (tracks_to_add, logs @ [skipped_log t]))
      in if length (fst st) \<ge> 5 then st else scan_tracks allow_remixes_flag rest st)"

definition song_of :: "artist_data \<Rightarrow> track \<Rightarrow> song_data" where
  "song_of a t =
     \<lparr>s_id = track_id t, s_name = track_name t,
      s_artist_name = a_name a, s_artist_id = a_id a\<rparr>"

definition top_songs_header :: "artist_data \<Rightarrow> string" where
  "top_songs_header a =
     [CHR 0x0A] @ ''--- Top Songs: '' @ a_name a @ '' ('' @ a_id a @ '') ---''"

definition remix_check_log :: "bool \<Rightarrow> string" where
  "remix_check_log b = ''  > Remix Check: Genres permit remixes/edits? '' @ str_bool b"

definition no_tracks_log :: "artist_data \<Rightarrow> string" where
  "no_tracks_log a = ''  > WARNING: No top tracks available for '' @ a_name a @ ''.''"

definition final_count_log :: "artist_data \<Rightarrow> nat \<Rightarrow> string" where
  "final_count_log a n =
     ''  > Final Count: '' @ str_nat n @ '' songs added for '' @ a_name a"

fun top_songs_error_log :: "artist_data \<Rightarrow> exn \<Rightarrow> string" where
  "top_songs_error_log a (SpotifyException m) =
     ''[ERROR] Spotify API Error fetching tracks for '' @ a_name a @ '': '' @ m @ ''. Skipping.''"
| "top_songs_error_log a e =
     ''[ERROR] An unexpected error occurred fetching tracks for '' @ a_name a @ '': '' @
     str_exn e @ ''. Skipping.''"

definition fetch_top_songs :: "spotify \<Rightarrow> artist_data \<Rightarrow> string list \<Rightarrow> song_data list \<times> string list" where
  "fetch_top_songs sp artist_details remixes_allowed =
     (let allow_remixes_flag = allow_remixes (a_genres artist_details) remixes_allowed;
          logs = [top_songs_header artist_details, remix_check_log allow_remixes_flag]
      in case artist_top_tracks sp (a_id artist_details) of
           Inl e \<Rightarrow> ([], logs @ [top_songs_error_log artist_details e])
         | Inr all_tracks \<Rightarrow>
             (if all_tracks = [] then ([], logs @ [no_tracks_log artist_details])
              else
                (let (tracks_to_add, logs') =
                       scan_tracks allow_remixes_flag (take 10 all_tracks) ([], logs);
                     tracks = map (song_of artist_details) (take 5 tracks_to_add)
                 in (tracks, logs' @ [final_count_log artist_details (length tracks)]))))"

section \<open>fetch_artist_details\<close>

text \<open>
  Line 160 evaluates \<open>difflib.SequenceMatcher(None, normalized_query, spotify_name.lower()).ratio()\<close>.
  The ratio is \<open>2 * M / T\<close> for \<open>M\<close> matched characters and \<open>T\<close> the two lengths together;
  it is modelled as a rational number, and the comparison with the literal \<open>0.90\<close> as the
  comparison with \<open>9 / 10\<close>. The two agree as long as \<open>T\<close> is below \<open>9 * 10^14\<close>: a ratio
  other than \<open>9 / 10\<close> then differs from it by at least \<open>1 / (10 * T)\<close>, more than the
  spacing of doubles near 0.9, so the rounded quotient exceeds the double \<open>0.90\<close> exactly
  when \<open>2 * M / T > 9 / 10\<close>.

  The function reads the global name \<open>difflib\<close>. Its binding in the module's namespace is a
  parameter of the model: \<open>Some ratio\<close> when the name is bound to the library, \<open>None\<close> when
  it is not bound, in which case the lookup raises \<open>NameError\<close>.
\<close>

type_synonym sequence_ratio = "string \<Rightarrow> string \<Rightarrow> rat"

text \<open>
  The loop of lines 150-168 over \<open>items\<close>: \<open>Inr (Some item)\<close> is the \<open>break\<close> with
  \<open>best_match_item = item\<close>, \<open>Inr None\<close> the end of the loop with no match, \<open>Inl e\<close> an
  exception raised inside the loop.
\<close>

fun scan_items :: "sequence_ratio option \<Rightarrow> string \<Rightarrow> item list \<Rightarrow> exn + item option" where
  "scan_items difflib_binding normalized_query [] = Inr None"
| "scan_items difflib_binding normalized_query (it # rest) =
     (let spotify_name = item_name it in
      if lower spotify_name = normalized_query then Inr (Some it)
      else
        case difflib_binding of
          None \<Rightarrow> Inl (NameError ''difflib'')
        | Some ratio \<Rightarrow>
            if ratio normalized_query (lower spotify_name) > 9 / 10 then Inr (Some it)
            else if startswith normalized_query ''the '' \<and>
                    lower spotify_name = drop 4 normalized_query then Inr (Some it)
            else scan_items difflib_binding normalized_query rest)"

definition not_found_log :: "string \<Rightarrow> string" where
  "not_found_log artist_name =
     ''[WARNING] Artist: '' @ [CHR 0x27] @ artist_name @ [CHR 0x27] @ '' not found on Spotify. Skipping.''"

definition no_close_match_log :: "string \<Rightarrow> string \<Rightarrow> string" where
  "no_close_match_log artist_name top_result_name =
     ''[WARNING] Artist: '' @ [CHR 0x27] @ artist_name @ [CHR 0x27] @
     '' has no close match in top 5. Top result was '' @ [CHR 0x27] @ top_result_name @ [CHR 0x27] @
     ''. Skipping.''"

definition details_logs :: "string \<Rightarrow> item \<Rightarrow> string list" where
  "details_logs artist_name best_match_item =
     [''--- Artist Details: '' @ artist_name @ '' ---'',
      ''  > Matched Spotify Name: '' @ item_name best_match_item,
      ''  > ID: '' @ item_id best_match_item,
      ''  > Genres: '' @
        (if item_genres best_match_item \<noteq> [] then join_comma (item_genres best_match_item)
         else ''None'')]"

definition details_error_log :: "string \<Rightarrow> exn \<Rightarrow> string" where
  "details_error_log artist_name e =
     ''[ERROR] Fetching details for '' @ [CHR 0x27] @ artist_name @ [CHR 0x27] @ '' failed: '' @
     str_exn e @ ''. Skipping.''"

text \<open>
  The body of the \<open>try\<close> (lines 139-192). \<open>items[0]\<close> of line 172 raises \<open>IndexError\<close> on an
  empty list. Every \<open>logs.append\<close> of the body is followed by a \<open>return\<close> with nothing that
  raises in between, so \<open>logs\<close> is empty wherever the body raises.
\<close>

definition fetch_artist_details_body ::
  "sequence_ratio option \<Rightarrow> spotify \<Rightarrow> string \<Rightarrow> exn + (artist_data option \<times> string list)" where
  "fetch_artist_details_body difflib_binding sp artist_name =
     (let normalized_query = lower artist_name in
      case search sp artist_name of
        Inl e \<Rightarrow> Inl e
      | Inr items \<Rightarrow>
          (if items = [] then Inr (None, [not_found_log artist_name])
           else
             (case scan_items difflib_binding normalized_query items of
                Inl e \<Rightarrow> Inl e
              | Inr None \<Rightarrow>
                  (case items of
                     [] \<Rightarrow> Inl IndexError
                   | top_result # _ \<Rightarrow>
                       Inr (None, [no_close_match_log artist_name (item_name top_result)]))
              | Inr (Some best_match_item) \<Rightarrow>
                  Inr (Some \<lparr>a_name = item_name best_match_item,
                             a_id = item_id best_match_item,
                             a_genres = item_genres best_match_item\<rparr>,
                       details_logs artist_name best_match_item))))"

text \<open>The function with its handler \<open>except Exception\<close> (lines 194-196).\<close>

definition fetch_artist_details_in ::
  "sequence_ratio option \<Rightarrow> spotify \<Rightarrow> string \<Rightarrow> artist_data option \<times> string list" where
  "fetch_artist_details_in difflib_binding sp artist_name =
     (case fetch_artist_details_body difflib_binding sp artist_name of
        Inl e \<Rightarrow> (None, [details_error_log artist_name e])
      | Inr r \<Rightarrow> r)"

text \<open>
  The module as it is written: lines 1-8 import \<open>logging\<close>, \<open>os\<close>, \<open>sys\<close>,
  \<open>ThreadPoolExecutor\<close>, five names of \<open>typing\<close>, \<open>spotipy\<close> and \<open>spotipy.util\<close>. No
  statement of the file binds \<open>difflib\<close>.
\<close>

definition difflib :: "sequence_ratio option" where
  "difflib = None"

definition fetch_artist_details :: "spotify \<Rightarrow> string \<Rightarrow> artist_data option \<times> string list" where
  "fetch_artist_details = fetch_artist_details_in difflib"

section \<open>add_tracks_in_batches\<close>

text \<open>
  What the function does to the outside: the batches it passes to
  \<open>sp.user_playlist_add_tracks\<close>, in order, and the lines it logs.
\<close>

record effects =
  calls :: "string list list"
  info :: "string list"

text \<open>
  \<open>int(i/batch_size) + 1\<close> divides in floating point and truncates; \<open>i\<close> is a multiple of
  100, so the value is \<open>i div 100 + 1\<close>.
\<close>

definition batch_log :: "nat \<Rightarrow> nat \<Rightarrow> string" where
  "batch_log number size_of_batch =
     ''Added batch '' @ str_nat number @ '' ('' @ str_nat size_of_batch @ '' tracks) to the playlist.''"

text \<open>
  The loop \<open>for i in range(0, len(song_ids), batch_size)\<close> from index \<open>i\<close> on. A call that
  raises ends the loop: the exception leaves the function, after the call and before its log
  line.
\<close>

function add_tracks_from ::
  "spotify \<Rightarrow> string \<Rightarrow> string \<Rightarrow> string list \<Rightarrow> nat \<Rightarrow> effects \<Rightarrow> exn option \<times> effects" where
  "add_tracks_from sp username playlist_id song_ids i eff =
     (if i < length song_ids then
        let batch = take 100 (drop i song_ids);
            eff1 = eff\<lparr>calls := calls eff @ [batch]\<rparr>
        in case user_playlist_add_tracks sp username playlist_id batch of
             Inl e \<Rightarrow> (Some e, eff1)
           | Inr _ \<Rightarrow>
               add_tracks_from sp username playlist_id song_ids (i + 100)
                 (eff1\<lparr>info := info eff1 @ [batch_log (i div 100 + 1) (length batch)]\<rparr>)
      else (None, eff))"
  by pat_completeness auto
termination
  by (relation "measure (\<lambda>(sp, username, playlist_id, song_ids, i, eff). length song_ids - i)") auto

declare add_tracks_from.simps [simp del]

definition add_tracks_in_batches ::
  "spotify \<Rightarrow> string \<Rightarrow> string \<Rightarrow> string list \<Rightarrow> exn option \<times> effects" where
  "add_tracks_in_batches sp username playlist_id song_ids =
     add_tracks_from sp username playlist_id song_ids 0 \<lparr>calls = [], info = []\<rparr>"

section \<open>main\<close>

text \<open>
  \<open>executor.map\<close> returns the workers' results in the order of its input, so each phase is
  a \<open>map\<close> followed by the loop that consumes the results (lines 74-78 and 97-101).
\<close>

fun collect_artists ::
  "(artist_data option \<times> string list) list \<Rightarrow> artist_data list \<times> string list \<Rightarrow>
   artist_data list \<times> string list" where
  "collect_artists [] (valid_artists, all_logs) = (valid_artists, all_logs)"
| "collect_artists ((artist_data, logs) # rest) (valid_artists, all_logs) =
     collect_artists rest
       (case artist_data of None \<Rightarrow> valid_artists | Some a \<Rightarrow> valid_artists @ [a],
        all_logs @ logs)"

fun collect_songs ::
  "(song_data list \<times> string list) list \<Rightarrow> song_data list \<times> string list \<Rightarrow>
   song_data list \<times> string list" where
  "collect_songs [] (all_song_details, all_logs) = (all_song_details, all_logs)"
| "collect_songs ((artist_songs, logs) # rest) (all_song_details, all_logs) =
     collect_songs rest
       (foldl (\<lambda>details song. details @ [song]) all_song_details artist_songs,
        all_logs @ logs)"

definition phase1 :: "spotify \<Rightarrow> string list \<Rightarrow> artist_data list \<times> string list" where
  "phase1 sp artists = collect_artists (map (\<lambda>name. fetch_artist_details sp name) artists) ([], [])"

definition phase2 :: "spotify \<Rightarrow> artist_data list \<Rightarrow> song_data list \<times> string list" where
  "phase2 sp valid_artists =
     collect_songs
       (map (\<lambda>details. fetch_top_songs sp details remixes_allowed_genres) valid_artists) ([], [])"

text \<open>
  Lines 71-112 of \<open>main\<close>: \<open>song_ids\<close> when the run gets as far as phase 3, \<open>None\<close> when it
  returns at line 87 or line 109.
\<close>

definition main_song_ids :: "spotify \<Rightarrow> string list \<Rightarrow> string list option" where
  "main_song_ids sp artists =
     (let (valid_artists, logs1) = phase1 sp artists in
      if valid_artists = [] then None
      else
        let (all_song_details, logs2) = phase2 sp valid_artists in
        if all_song_details = [] then None
        else Some (map s_id all_song_details))"

definition playlist_name :: string where
  "playlist_name = ''Coachella 2026''"

text \<open>
  Phase 3 (lines 116-128): the calls to \<open>user_playlist_add_tracks\<close> that a run of \<open>main\<close>
  makes. Both handlers log and return.
\<close>

definition main :: "spotify \<Rightarrow> string \<Rightarrow> string list \<Rightarrow> string list list" where
  "main sp username artists =
     (case main_song_ids sp artists of
        None \<Rightarrow> []
      | Some song_ids \<Rightarrow>
          (case user_playlist_create sp username playlist_name of
             Inl e \<Rightarrow> []
           | Inr playlist_id \<Rightarrow>
               calls (snd (add_tracks_in_batches sp username playlist_id song_ids))))"

section \<open>Notions used in the statements\<close>

text \<open>The acceptance test of line 235, and the log line of a track that the loop examined.\<close>

definition accepts :: "bool \<Rightarrow> track \<Rightarrow> bool" where
  "accepts allow t = (allow \<or> \<not> is_remix (track_name t))"

definition track_log :: "bool \<Rightarrow> track \<Rightarrow> string" where
  "track_log allow t = (if accepts allow t then added_log t else skipped_log t)"

text \<open>
  \<open>scanned allow ts acc logs k\<close>: started with \<open>acc\<close> and \<open>logs\<close>, the loop examines exactly
  the first \<open>k\<close> tracks of \<open>ts\<close>; it stops at the track that brings the count to five, and
  otherwise runs to the end of the list.
\<close>

definition scanned :: "bool \<Rightarrow> track list \<Rightarrow> track list \<Rightarrow> string list \<Rightarrow> nat \<Rightarrow> bool" where
  "scanned allow ts acc logs k =
     (k \<le> length ts \<and>
      scan_tracks allow ts (acc, logs) =
        (acc @ filter (accepts allow) (take k ts), logs @ map (track_log allow) (take k ts)) \<and>
      length (acc @ filter (accepts allow) (take k ts)) \<le> 5 \<and>
      (length (acc @ filter (accepts allow) (take k ts)) = 5 \<longrightarrow>
         0 < k \<and> accepts allow (ts ! (k - 1))) \<and>
      (length (acc @ filter (accepts allow) (take k ts)) < 5 \<longrightarrow> k = length ts))"

text \<open>
  The \<open>k\<close>-th slice of at most 100 ids, counted from 0, and the number of slices.
\<close>

definition slice :: "string list \<Rightarrow> nat \<Rightarrow> string list" where
  "slice song_ids k = take 100 (drop (100 * k) song_ids)"

definition batch_count :: "string list \<Rightarrow> nat" where
  "batch_count song_ids = (length song_ids + 99) div 100"

text \<open>
  The dictionary built from a matched candidate (lines 188-192), and the three match conditions
  for a query \<open>q\<close>: equality up to case, a ratio above \<open>9 / 10\<close>, or the query without its
  leading "the ".
\<close>

definition artist_of :: "item \<Rightarrow> artist_data" where
  "artist_of it = \<lparr>a_name = item_name it, a_id = item_id it, a_genres = item_genres it\<rparr>"

definition item_matches :: "sequence_ratio \<Rightarrow> string \<Rightarrow> item \<Rightarrow> bool" where
  "item_matches ratio q it =
     (lower (item_name it) = lower q \<or>
      ratio (lower q) (lower (item_name it)) > 9 / 10 \<or>
      (prefix ''the '' (lower q) \<and> lower (item_name it) = drop 4 (lower q)))"

section \<open>Example inputs\<close>

text \<open>Clients, artists and track lists on which the statements below are evaluated.\<close>

definition example_tracks :: "track list" where
  "example_tracks =
     [\<lparr>track_name = ''Song (Radio Edit)'', track_id = ''t1''\<rparr>,
      \<lparr>track_name = ''Song (Edit)'', track_id = ''t2''\<rparr>,
      \<lparr>track_name = ''Song (Album Edit)'', track_id = ''t3''\<rparr>,
      \<lparr>track_name = ''Song Remix'', track_id = ''t4''\<rparr>]"

definition rock_artist :: artist_data where
  "rock_artist = \<lparr>a_name = ''Band'', a_id = ''a1'', a_genres = [''indie rock'']\<rparr>"

definition house_artist :: artist_data where
  "house_artist = \<lparr>a_name = ''Deejay'', a_id = ''a2'', a_genres = [''pop'', ''deep house'']\<rparr>"

definition example_sp :: spotify where
  "example_sp =
     \<lparr>search = (\<lambda>q. Inr []),
      artist_top_tracks = (\<lambda>i. Inr example_tracks),
      user_playlist_create = (\<lambda>u n. Inr ''p1''),
      user_playlist_add_tracks = (\<lambda>u p batch. Inr ())\<rparr>"

definition ten_tracks :: "track list" where
  "ten_tracks =
     [\<lparr>track_name = ''Song a'', track_id = ''id-a''\<rparr>,
      \<lparr>track_name = ''Song b'', track_id = ''id-b''\<rparr>,
      \<lparr>track_name = ''Song c'', track_id = ''id-c''\<rparr>,
      \<lparr>track_name = ''Song d'', track_id = ''id-d''\<rparr>,
      \<lparr>track_name = ''Song e'', track_id = ''id-e''\<rparr>,
      \<lparr>track_name = ''Song f'', track_id = ''id-f''\<rparr>,
      \<lparr>track_name = ''Song g'', track_id = ''id-g''\<rparr>,
      \<lparr>track_name = ''Song h'', track_id = ''id-h''\<rparr>,
      \<lparr>track_name = ''Song i'', track_id = ''id-i''\<rparr>,
      \<lparr>track_name = ''Song j'', track_id = ''id-j''\<rparr>]"

definition ten_sp :: spotify where
  "ten_sp =
     \<lparr>search = (\<lambda>q. Inr []),
      artist_top_tracks = (\<lambda>i. Inr ten_tracks),
      user_playlist_create = (\<lambda>u n. Inr ''p1''),
      user_playlist_add_tracks = (\<lambda>u p batch. Inr ())\<rparr>"

definition example_ids :: "string list" where
  "example_ids = map (\<lambda>k. replicate k (CHR ''x'')) [0..<150]"

definition two_candidates_sp :: spotify where
  "two_candidates_sp =
     \<lparr>search = (\<lambda>q. Inr [\<lparr>item_name = ''xyz'', item_id = ''i1'', item_genres = []\<rparr>,
                           \<lparr>item_name = ''abc'', item_id = ''i2'', item_genres = []\<rparr>]),
      artist_top_tracks = (\<lambda>i. Inr []),
      user_playlist_create = (\<lambda>u n. Inr ''p1''),
      user_playlist_add_tracks = (\<lambda>u p batch. Inr ())\<rparr>"

definition similar_sp :: spotify where
  "similar_sp =
     \<lparr>search = (\<lambda>q. Inr [\<lparr>item_name = ''Twenty One Pilots'', item_id = ''i3'',
                            item_genres = [''pop'']\<rparr>]),
      artist_top_tracks = (\<lambda>i. Inr []),
      user_playlist_create = (\<lambda>u n. Inr ''p1''),
      user_playlist_add_tracks = (\<lambda>u p batch. Inr ())\<rparr>"

definition the_sp :: spotify where
  "the_sp =
     \<lparr>search = (\<lambda>q. Inr [\<lparr>item_name = ''xx'', item_id = ''i4'', item_genres = [''indie'']\<rparr>]),
      artist_top_tracks = (\<lambda>i. Inr []),
      user_playlist_create = (\<lambda>u n. Inr ''p1''),
      user_playlist_add_tracks = (\<lambda>u p batch. Inr ())\<rparr>"

definition failing_sp :: spotify where
  "failing_sp =
     \<lparr>search = (\<lambda>q. Inl (SpotifyException ''http status: 429'')),
      artist_top_tracks = (\<lambda>i. Inl (SpotifyException ''http status: 429'')),
      user_playlist_create = (\<lambda>u n. Inl (SpotifyException ''http status: 429'')),
      user_playlist_add_tracks = (\<lambda>u p batch. Inl (SpotifyException ''http status: 429''))\<rparr>"

definition no_match_sp :: spotify where
  "no_match_sp =
     \<lparr>search = (\<lambda>q. Inr [\<lparr>item_name = ''xyz'', item_id = ''i1'', item_genres = []\<rparr>]),
      artist_top_tracks = (\<lambda>i. Inr []),
      user_playlist_create = (\<lambda>u n. Inr ''p1''),
      user_playlist_add_tracks = (\<lambda>u p batch. Inr ())\<rparr>"

definition festival_sp :: spotify where
  "festival_sp =
     \<lparr>search = (\<lambda>q. if q = ''Band''
                     then Inr [\<lparr>item_name = ''Band'', item_id = ''a1'', item_genres = [''indie rock'']\<rparr>]
                     else if q = ''deejay''
                     then Inr [\<lparr>item_name = ''Deejay'', item_id = ''a2'',
                                item_genres = [''pop'', ''deep house'']\<rparr>]
                     else Inr []),
      artist_top_tracks = (\<lambda>i. Inr example_tracks),
      user_playlist_create = (\<lambda>u n. Inr ''p1''),
      user_playlist_add_tracks = (\<lambda>u p batch. Inr ())\<rparr>"

section \<open>Facts about strings\<close>

lemma startswith_prefix: "startswith s p = prefix p s"
  by (induction s p rule: startswith.induct) auto

lemma contains_sublist: "contains sub s = sublist sub s"
  by (induction s) (auto simp: startswith_prefix sublist_Cons_right)

section \<open>The track loop\<close>

lemma scan_tracks_break:
  "accepts allow t \<Longrightarrow> length acc = 4 \<Longrightarrow>
   scan_tracks allow (t # ts) (acc, logs) = (acc @ [t], logs @ [track_log allow t])"
  by (auto simp: accepts_def track_log_def)

lemma scan_tracks_add:
  "accepts allow t \<Longrightarrow> length acc < 4 \<Longrightarrow>
   scan_tracks allow (t # ts) (acc, logs) = scan_tracks allow ts (acc @ [t], logs @ [track_log allow t])"
  by (auto simp: accepts_def track_log_def)

lemma scan_tracks_skip:
  "\<not> accepts allow t \<Longrightarrow> length acc < 5 \<Longrightarrow>
   scan_tracks allow (t # ts) (acc, logs) = scan_tracks allow ts (acc, logs @ [track_log allow t])"
  by (auto simp: accepts_def track_log_def)

lemma scanned_Nil: "length acc < 5 \<Longrightarrow> scanned allow [] acc logs 0"
  by (simp add: scanned_def)

lemma scanned_break:
  "accepts allow t \<Longrightarrow> length acc = 4 \<Longrightarrow> scanned allow (t # ts) acc logs 1"
  unfolding scanned_def by (simp add: scan_tracks_break del: scan_tracks.simps)

lemma nth_Suc_pred: "0 < k \<Longrightarrow> (t # ts) ! k = ts ! (k - 1)"
  by (cases k) simp_all

lemma scannedI:
  assumes "k \<le> length ts"
    and "scan_tracks allow ts (acc, logs) =
        (acc @ filter (accepts allow) (take k ts), logs @ map (track_log allow) (take k ts))"
    and "length (acc @ filter (accepts allow) (take k ts)) \<le> 5"
    and "length (acc @ filter (accepts allow) (take k ts)) = 5 \<Longrightarrow>
         0 < k \<and> accepts allow (ts ! (k - 1))"
    and "length (acc @ filter (accepts allow) (take k ts)) < 5 \<Longrightarrow> k = length ts"
  shows "scanned allow ts acc logs k"
  unfolding scanned_def using assms by blast

lemma scannedD:
  assumes "scanned allow ts acc logs k"
  shows "k \<le> length ts"
    and "scan_tracks allow ts (acc, logs) =
        (acc @ filter (accepts allow) (take k ts), logs @ map (track_log allow) (take k ts))"
    and "length (acc @ filter (accepts allow) (take k ts)) \<le> 5"
    and "length (acc @ filter (accepts allow) (take k ts)) = 5 \<Longrightarrow>
         0 < k \<and> accepts allow (ts ! (k - 1))"
    and "length (acc @ filter (accepts allow) (take k ts)) < 5 \<Longrightarrow> k = length ts"
  using assms unfolding scanned_def by blast+

lemma scanned_add:
  assumes ok: "accepts allow t" and l4: "length acc < 4"
    and s: "scanned allow ts (acc @ [t]) (logs @ [track_log allow t]) k"
  shows "scanned allow (t # ts) acc logs (Suc k)"
proof (rule scannedI)
  have e: "acc @ filter (accepts allow) (take (Suc k) (t # ts)) =
           (acc @ [t]) @ filter (accepts allow) (take k ts)"
    using ok by simp
  have m: "logs @ map (track_log allow) (take (Suc k) (t # ts)) =
           (logs @ [track_log allow t]) @ map (track_log allow) (take k ts)"
    by simp
  show "Suc k \<le> length (t # ts)" using scannedD(1)[OF s] by simp
  show "scan_tracks allow (t # ts) (acc, logs) =
    (acc @ filter (accepts allow) (take (Suc k) (t # ts)),
     logs @ map (track_log allow) (take (Suc k) (t # ts)))"
    unfolding e m scan_tracks_add[OF ok l4] by (rule scannedD(2)[OF s])
  show "length (acc @ filter (accepts allow) (take (Suc k) (t # ts))) \<le> 5"
    unfolding e by (rule scannedD(3)[OF s])
  show "0 < Suc k \<and> accepts allow ((t # ts) ! (Suc k - 1))"
    if "length (acc @ filter (accepts allow) (take (Suc k) (t # ts))) = 5"
  proof -
    from that have "length ((acc @ [t]) @ filter (accepts allow) (take k ts)) = 5"
      unfolding e .
    from scannedD(4)[OF s this] show ?thesis by (simp add: nth_Suc_pred)
  qed
  show "Suc k = length (t # ts)"
    if "length (acc @ filter (accepts allow) (take (Suc k) (t # ts))) < 5"
  proof -
    from that have "length ((acc @ [t]) @ filter (accepts allow) (take k ts)) < 5"
      unfolding e .
    from scannedD(5)[OF s this] show ?thesis by simp
  qed
qed

lemma scanned_skip:
  assumes nok: "\<not> accepts allow t" and l5: "length acc < 5"
    and s: "scanned allow ts acc (logs @ [track_log allow t]) k"
  shows "scanned allow (t # ts) acc logs (Suc k)"
proof (rule scannedI)
  have e: "acc @ filter (accepts allow) (take (Suc k) (t # ts)) =
           acc @ filter (accepts allow) (take k ts)"
    using nok by simp
  have m: "logs @ map (track_log allow) (take (Suc k) (t # ts)) =
           (logs @ [track_log allow t]) @ map (track_log allow) (take k ts)"
    by simp
  show "Suc k \<le> length (t # ts)" using scannedD(1)[OF s] by simp
  show "scan_tracks allow (t # ts) (acc, logs) =
    (acc @ filter (accepts allow) (take (Suc k) (t # ts)),
     logs @ map (track_log allow) (take (Suc k) (t # ts)))"
    unfolding e m scan_tracks_skip[OF nok l5] by (rule scannedD(2)[OF s])
  show "length (acc @ filter (accepts allow) (take (Suc k) (t # ts))) \<le> 5"
    unfolding e by (rule scannedD(3)[OF s])
  show "0 < Suc k \<and> accepts allow ((t # ts) ! (Suc k - 1))"
    if "length (acc @ filter (accepts allow) (take (Suc k) (t # ts))) = 5"
  proof -
    from that have "length (acc @ filter (accepts allow) (take k ts)) = 5"
      unfolding e .
    from scannedD(4)[OF s this] show ?thesis by (simp add: nth_Suc_pred)
  qed
  show "Suc k = length (t # ts)"
    if "length (acc @ filter (accepts allow) (take (Suc k) (t # ts))) < 5"
  proof -
    from that have "length (acc @ filter (accepts allow) (take k ts)) < 5"
      unfolding e .
    from scannedD(5)[OF s this] show ?thesis by simp
  qed
qed

lemma scanned_ex: "length acc < 5 \<Longrightarrow> \<exists>k. scanned allow ts acc logs k"
proof (induction ts arbitrary: acc logs)
  case Nil
  then show ?case using scanned_Nil by blast
next
  case (Cons t ts)
  show ?case
  proof (cases "accepts allow t")
    case ok: True
    show ?thesis
    proof (cases "length acc = 4")
      case True
      with ok show ?thesis using scanned_break by blast
    next
      case False
      with Cons.prems have l4: "length acc < 4" by simp
      then have "length (acc @ [t]) < 5" by simp
      from Cons.IH[OF this] obtain k where
        "scanned allow ts (acc @ [t]) (logs @ [track_log allow t]) k" by blast
      from scanned_add[OF ok l4 this] show ?thesis ..
    qed
  next
    case nok: False
    from Cons.IH[OF Cons.prems] obtain k where
      "scanned allow ts acc (logs @ [track_log allow t]) k" by blast
    from scanned_skip[OF nok Cons.prems this] show ?thesis ..
  qed
qed


section \<open>fetch_top_songs: acceptance, allowance and the cap\<close>

lemma take5_id: "length xs \<le> 5 \<Longrightarrow> take 5 xs = xs"
  by simp

lemma fetch_top_songs_error:
  "artist_top_tracks sp (a_id a) = Inl e \<Longrightarrow>
   fetch_top_songs sp a G =
     ([], [top_songs_header a, remix_check_log (allow_remixes (a_genres a) G),
           top_songs_error_log a e])"
  by (simp add: fetch_top_songs_def)

lemma fetch_top_songs_empty:
  "artist_top_tracks sp (a_id a) = Inr [] \<Longrightarrow>
   fetch_top_songs sp a G =
     ([], [top_songs_header a, remix_check_log (allow_remixes (a_genres a) G), no_tracks_log a])"
  by (simp add: fetch_top_songs_def)

lemma fetch_top_songs_scan:
  assumes r: "artist_top_tracks sp (a_id a) = Inr all_tracks" and ne: "all_tracks \<noteq> []"
    and s: "scanned (allow_remixes (a_genres a) G) (take 10 all_tracks) []
              [top_songs_header a, remix_check_log (allow_remixes (a_genres a) G)] k"
  shows "fetch_top_songs sp a G =
     (map (song_of a) (filter (accepts (allow_remixes (a_genres a) G)) (take k (take 10 all_tracks))),
      [top_songs_header a, remix_check_log (allow_remixes (a_genres a) G)] @
      map (track_log (allow_remixes (a_genres a) G)) (take k (take 10 all_tracks)) @
      [final_count_log a
         (length (filter (accepts (allow_remixes (a_genres a) G)) (take k (take 10 all_tracks))))])"
proof -
  let ?f = "allow_remixes (a_genres a) G"
  let ?acc = "filter (accepts ?f) (take k (take 10 all_tracks))"
  have sc: "scan_tracks ?f (take 10 all_tracks) ([], [top_songs_header a, remix_check_log ?f]) =
        (?acc, [top_songs_header a, remix_check_log ?f] @ map (track_log ?f) (take k (take 10 all_tracks)))"
    using scannedD(2)[OF s] by simp
  have "length ?acc \<le> 5" using scannedD(3)[OF s] by simp
  then have t5: "take 5 ?acc = ?acc" by (rule take5_id)
  show ?thesis
    unfolding fetch_top_songs_def Let_def r sum.case if_not_P[OF ne] sc prod.case t5
    by simp
qed

lemma is_remix_sublist:
  "is_remix name \<longleftrightarrow>
     sublist ''remix'' (lower name) \<or>
     (sublist ''edit'' (lower name) \<and> \<not> sublist ''radio edit'' (lower name) \<and>
      \<not> sublist ''album edit'' (lower name))"
  by (simp add: is_remix_def contains_sublist)

lemma lower_examples:
  "lower ''Song (Radio Edit)'' = ''song (radio edit)''"
  "lower ''Song (Edit)'' = ''song (edit)''"
  "lower ''Song (Album Edit)'' = ''song (album edit)''"
  "lower ''Song Remix'' = ''song remix''"
  by (simp_all add: lower_def lower_char_def)

lemma is_remix_examples:
  "\<not> is_remix ''Song (Radio Edit)''"
  "is_remix ''Song (Edit)''"
  "\<not> is_remix ''Song (Album Edit)''"
  "is_remix ''Song Remix''"
  by (simp_all add: is_remix_def lower_examples)

lemma fetch_top_songs_examined:
  assumes r: "artist_top_tracks sp (a_id a) = Inr all_tracks"
  shows "\<exists>k\<le>length (take 10 all_tracks).
     fst (fetch_top_songs sp a G) =
       map (song_of a) (filter (accepts (allow_remixes (a_genres a) G)) (take k (take 10 all_tracks))) \<and>
     (all_tracks \<noteq> [] \<longrightarrow>
        snd (fetch_top_songs sp a G) =
          [top_songs_header a, remix_check_log (allow_remixes (a_genres a) G)] @
          map (track_log (allow_remixes (a_genres a) G)) (take k (take 10 all_tracks)) @
          [final_count_log a (length (fst (fetch_top_songs sp a G)))]) \<and>
     length (fst (fetch_top_songs sp a G)) \<le> 5 \<and>
     (length (fst (fetch_top_songs sp a G)) = 5 \<longrightarrow>
        0 < k \<and> accepts (allow_remixes (a_genres a) G) (all_tracks ! (k - 1))) \<and>
     (length (fst (fetch_top_songs sp a G)) < 5 \<longrightarrow> k = length (take 10 all_tracks))"
proof (cases "all_tracks = []")
  case True
  with r have "fetch_top_songs sp a G =
     ([], [top_songs_header a, remix_check_log (allow_remixes (a_genres a) G), no_tracks_log a])"
    by (simp add: fetch_top_songs_empty)
  with True show ?thesis by simp
next
  case False
  let ?f = "allow_remixes (a_genres a) G"
  let ?ts = "take 10 all_tracks"
  have "\<exists>k. scanned ?f ?ts [] [top_songs_header a, remix_check_log ?f] k"
    by (rule scanned_ex) simp
  then obtain k where s: "scanned ?f ?ts [] [top_songs_header a, remix_check_log ?f] k" ..
  note f = fetch_top_songs_scan[OF r False s]
  have k: "k \<le> length ?ts" by (rule scannedD(1)[OF s])
  have l: "length (fst (fetch_top_songs sp a G)) = length (filter (accepts ?f) (take k ?ts))"
    unfolding f by simp
  have 1: "fst (fetch_top_songs sp a G) = map (song_of a) (filter (accepts ?f) (take k ?ts))"
    unfolding f by simp
  have 2: "snd (fetch_top_songs sp a G) =
          [top_songs_header a, remix_check_log ?f] @ map (track_log ?f) (take k ?ts) @
          [final_count_log a (length (fst (fetch_top_songs sp a G)))]"
    unfolding l unfolding f by simp
  have 3: "length (fst (fetch_top_songs sp a G)) \<le> 5"
    unfolding l using scannedD(3)[OF s] by simp
  have 4: "0 < k \<and> accepts ?f (all_tracks ! (k - 1))"
    if "length (fst (fetch_top_songs sp a G)) = 5"
  proof -
    from that have "length ([] @ filter (accepts ?f) (take k ?ts)) = 5" unfolding l by simp
    from scannedD(4)[OF s this] have "0 < k" "accepts ?f (?ts ! (k - 1))" by simp_all
    moreover from \<open>0 < k\<close> k have "k - 1 < 10" by auto
    ultimately show ?thesis by simp
  qed
  have 5: "k = length ?ts" if "length (fst (fetch_top_songs sp a G)) < 5"
  proof -
    from that have "length ([] @ filter (accepts ?f) (take k ?ts)) < 5" unfolding l by simp
    from scannedD(5)[OF s this] show ?thesis .
  qed
  from k 1 2 3 4 5 show ?thesis by blast
qed

lemma fetch_top_songs_length: "length (fst (fetch_top_songs sp a G)) \<le> 5"
proof (cases "artist_top_tracks sp (a_id a)")
  case (Inl e)
  then show ?thesis by (simp add: fetch_top_songs_error)
next
  case (Inr all_tracks)
  from fetch_top_songs_examined[OF this, of G] show ?thesis by blast
qed

lemma fetch_top_songs_remix_log:
  "snd (fetch_top_songs sp a G) ! 1 = remix_check_log (allow_remixes (a_genres a) G)"
proof (cases "artist_top_tracks sp (a_id a)")
  case (Inl e)
  then show ?thesis by (simp add: fetch_top_songs_error)
next
  case (Inr all_tracks)
  show ?thesis
  proof (cases "all_tracks = []")
    case True
    with Inr show ?thesis by (simp add: fetch_top_songs_empty)
  next
    case False
    from fetch_top_songs_examined[OF Inr, of G] False obtain k where
      "snd (fetch_top_songs sp a G) =
          [top_songs_header a, remix_check_log (allow_remixes (a_genres a) G)] @
          map (track_log (allow_remixes (a_genres a) G)) (take k (take 10 all_tracks)) @
          [final_count_log a (length (fst (fetch_top_songs sp a G)))]"
      by blast
    then show ?thesis by simp
  qed
qed

lemma allow_remixes_sublist:
  "allow_remixes genres allowed \<longleftrightarrow> (\<exists>genre\<in>set genres. \<exists>token\<in>set allowed. sublist token genre)"
  by (simp add: allow_remixes_def list_ex_iff contains_sublist)

text \<open>
  Claim C1. A track name is a remix or edit exactly when its lower-cased form contains
  \<open>remix\<close>, or contains \<open>edit\<close> and neither \<open>radio edit\<close> nor \<open>album edit\<close>. A track is
  accepted exactly when remixes are allowed or it is no remix or edit. When the top-tracks call
  returns, \<open>fetch_top_songs\<close> examines a prefix of the first ten tracks, returns the accepted
  ones among them in order, and logs one line per examined track. With remixes not allowed,
  "Song (Radio Edit)" and "Song (Album Edit)" are accepted, "Song (Edit)" and "Song Remix" are
  not; with remixes allowed every track is accepted.
\<close>

theorem track_acceptance_rule:
  "(is_remix name \<longleftrightarrow>
      sublist ''remix'' (lower name) \<or>
      (sublist ''edit'' (lower name) \<and> \<not> sublist ''radio edit'' (lower name) \<and>
       \<not> sublist ''album edit'' (lower name))) \<and>
   (accepts allow t \<longleftrightarrow> allow \<or> \<not> is_remix (track_name t)) \<and>
   (artist_top_tracks sp (a_id a) = Inr all_tracks \<longrightarrow>
      (\<exists>k\<le>length (take 10 all_tracks).
         fst (fetch_top_songs sp a G) =
           map (song_of a)
             (filter (accepts (allow_remixes (a_genres a) G)) (take k (take 10 all_tracks))) \<and>
         (all_tracks \<noteq> [] \<longrightarrow>
            snd (fetch_top_songs sp a G) =
              [top_songs_header a, remix_check_log (allow_remixes (a_genres a) G)] @
              map (track_log (allow_remixes (a_genres a) G)) (take k (take 10 all_tracks)) @
              [final_count_log a (length (fst (fetch_top_songs sp a G)))]))) \<and>
   accepts False \<lparr>track_name = ''Song (Radio Edit)'', track_id = i\<rparr> \<and>
   accepts False \<lparr>track_name = ''Song (Album Edit)'', track_id = i\<rparr> \<and>
   \<not> accepts False \<lparr>track_name = ''Song (Edit)'', track_id = i\<rparr> \<and>
   \<not> accepts False \<lparr>track_name = ''Song Remix'', track_id = i\<rparr> \<and>
   accepts True t"
proof -
  have "\<exists>k\<le>length (take 10 all_tracks).
         fst (fetch_top_songs sp a G) =
           map (song_of a)
             (filter (accepts (allow_remixes (a_genres a) G)) (take k (take 10 all_tracks))) \<and>
         (all_tracks \<noteq> [] \<longrightarrow>
            snd (fetch_top_songs sp a G) =
              [top_songs_header a, remix_check_log (allow_remixes (a_genres a) G)] @
              map (track_log (allow_remixes (a_genres a) G)) (take k (take 10 all_tracks)) @
              [final_count_log a (length (fst (fetch_top_songs sp a G)))])"
    if "artist_top_tracks sp (a_id a) = Inr all_tracks"
    using fetch_top_songs_examined[OF that, of G] by blast
  then have c3: "artist_top_tracks sp (a_id a) = Inr all_tracks \<longrightarrow>
      (\<exists>k\<le>length (take 10 all_tracks).
         fst (fetch_top_songs sp a G) =
           map (song_of a)
             (filter (accepts (allow_remixes (a_genres a) G)) (take k (take 10 all_tracks))) \<and>
         (all_tracks \<noteq> [] \<longrightarrow>
            snd (fetch_top_songs sp a G) =
              [top_songs_header a, remix_check_log (allow_remixes (a_genres a) G)] @
              map (track_log (allow_remixes (a_genres a) G)) (take k (take 10 all_tracks)) @
              [final_count_log a (length (fst (fetch_top_songs sp a G)))]))" ..
  have c1: "is_remix name \<longleftrightarrow>
      sublist ''remix'' (lower name) \<or>
      (sublist ''edit'' (lower name) \<and> \<not> sublist ''radio edit'' (lower name) \<and>
       \<not> sublist ''album edit'' (lower name))"
    by (rule is_remix_sublist)
  have c2: "accepts allow t \<longleftrightarrow> allow \<or> \<not> is_remix (track_name t)"
    by (rule accepts_def)
  have c4: "accepts False \<lparr>track_name = ''Song (Radio Edit)'', track_id = i\<rparr>"
    by (simp add: accepts_def is_remix_examples)
  have c5: "accepts False \<lparr>track_name = ''Song (Album Edit)'', track_id = i\<rparr>"
    by (simp add: accepts_def is_remix_examples)
  have c6: "\<not> accepts False \<lparr>track_name = ''Song (Edit)'', track_id = i\<rparr>"
    by (simp add: accepts_def is_remix_examples)
  have c7: "\<not> accepts False \<lparr>track_name = ''Song Remix'', track_id = i\<rparr>"
    by (simp add: accepts_def is_remix_examples)
  have c8: "accepts True t" by (simp add: accepts_def)
  from c1 c2 c3 c4 c5 c6 c7 c8 show ?thesis by (intro conjI)
qed

text \<open>
  The four names as the top tracks of an artist whose genres allow no remixes (ids \<open>t1\<close> and
  \<open>t3\<close> are selected) and of one whose genres do (all four are selected).
\<close>

theorem track_acceptance_rule_witness:
  "artist_top_tracks example_sp (a_id rock_artist) = Inr example_tracks \<and>
   (\<exists>k\<le>length (take 10 example_tracks).
      fst (fetch_top_songs example_sp rock_artist remixes_allowed_genres) =
        map (song_of rock_artist)
          (filter (accepts (allow_remixes (a_genres rock_artist) remixes_allowed_genres))
             (take k (take 10 example_tracks))) \<and>
      (example_tracks \<noteq> [] \<longrightarrow>
         snd (fetch_top_songs example_sp rock_artist remixes_allowed_genres) =
           [top_songs_header rock_artist,
            remix_check_log (allow_remixes (a_genres rock_artist) remixes_allowed_genres)] @
           map (track_log (allow_remixes (a_genres rock_artist) remixes_allowed_genres))
             (take k (take 10 example_tracks)) @
           [final_count_log rock_artist
              (length (fst (fetch_top_songs example_sp rock_artist remixes_allowed_genres)))])) \<and>
   map s_id (fst (fetch_top_songs example_sp rock_artist remixes_allowed_genres)) = [''t1'', ''t3''] \<and>
   map s_id (fst (fetch_top_songs example_sp house_artist remixes_allowed_genres)) =
     [''t1'', ''t2'', ''t3'', ''t4'']"
proof -
  have h: "artist_top_tracks example_sp (a_id rock_artist) = Inr example_tracks"
    by (simp add: example_sp_def)
  have r: "\<not> allow_remixes (a_genres rock_artist) remixes_allowed_genres"
    by (simp add: allow_remixes_def rock_artist_def remixes_allowed_genres_def)
  have hs: "allow_remixes (a_genres house_artist) remixes_allowed_genres"
    by (simp add: allow_remixes_def house_artist_def remixes_allowed_genres_def)
  have 1: "map s_id (fst (fetch_top_songs example_sp rock_artist remixes_allowed_genres)) = [''t1'', ''t3'']"
    by (simp add: fetch_top_songs_def r example_sp_def example_tracks_def is_remix_examples song_of_def)
  have 2: "map s_id (fst (fetch_top_songs example_sp house_artist remixes_allowed_genres)) =
     [''t1'', ''t2'', ''t3'', ''t4'']"
    by (simp add: fetch_top_songs_def hs example_sp_def example_tracks_def song_of_def)
  from track_acceptance_rule[of _ _ _ example_sp rock_artist example_tracks remixes_allowed_genres] h
  have e: "\<exists>k\<le>length (take 10 example_tracks).
      fst (fetch_top_songs example_sp rock_artist remixes_allowed_genres) =
        map (song_of rock_artist)
          (filter (accepts (allow_remixes (a_genres rock_artist) remixes_allowed_genres))
             (take k (take 10 example_tracks))) \<and>
      (example_tracks \<noteq> [] \<longrightarrow>
         snd (fetch_top_songs example_sp rock_artist remixes_allowed_genres) =
           [top_songs_header rock_artist,
            remix_check_log (allow_remixes (a_genres rock_artist) remixes_allowed_genres)] @
           map (track_log (allow_remixes (a_genres rock_artist) remixes_allowed_genres))
             (take k (take 10 example_tracks)) @
           [final_count_log rock_artist
              (length (fst (fetch_top_songs example_sp rock_artist remixes_allowed_genres)))])"
    by (rule conjunct2[THEN conjunct2, THEN conjunct1, THEN mp])
  with h 1 2 show ?thesis by (intro conjI)
qed

text \<open>
  Claim C5. With the eight tokens of \<open>main\<close>, the flag is true exactly when some genre of the
  artist contains some token as a contiguous substring; it is the value \<open>fetch_top_songs\<close> logs
  as its second line, whatever the client and the other fields of the artist are.
\<close>

theorem allow_remixes_flag:
  "(allow_remixes genres remixes_allowed_genres \<longleftrightarrow>
      (\<exists>genre\<in>set genres.
         \<exists>token\<in>{''house'', ''dub'', ''trance'', ''breakbeat'', ''bass'', ''techno'', ''edm'', ''dance''}.
           sublist token genre)) \<and>
   snd (fetch_top_songs sp a remixes_allowed_genres) ! 1 =
     remix_check_log
       (\<exists>genre\<in>set (a_genres a).
          \<exists>token\<in>{''house'', ''dub'', ''trance'', ''breakbeat'', ''bass'', ''techno'', ''edm'', ''dance''}.
            sublist token genre)"
proof -
  have s: "set remixes_allowed_genres =
    {''house'', ''dub'', ''trance'', ''breakbeat'', ''bass'', ''techno'', ''edm'', ''dance''}"
    by (simp add: remixes_allowed_genres_def)
  show ?thesis
    unfolding fetch_top_songs_remix_log allow_remixes_sublist s by simp
qed

text \<open>
  The genre "deep house" contains the token "house" without being equal to it; "indie rock"
  contains none of the tokens.
\<close>

theorem allow_remixes_flag_witness:
  "(\<exists>genre\<in>set [''pop'', ''deep house''].
      \<exists>token\<in>{''house'', ''dub'', ''trance'', ''breakbeat'', ''bass'', ''techno'', ''edm'', ''dance''}.
        sublist token genre) \<and>
   \<not> (\<exists>genre\<in>set [''indie rock''].
      \<exists>token\<in>{''house'', ''dub'', ''trance'', ''breakbeat'', ''bass'', ''techno'', ''edm'', ''dance''}.
        sublist token genre) \<and>
   snd (fetch_top_songs example_sp house_artist remixes_allowed_genres) ! 1 =
     ''  > Remix Check: Genres permit remixes/edits? True''"
proof -
  have y: "allow_remixes [''pop'', ''deep house''] remixes_allowed_genres"
    by (simp add: allow_remixes_def remixes_allowed_genres_def)
  have n: "\<not> allow_remixes [''indie rock''] remixes_allowed_genres"
    by (simp add: allow_remixes_def remixes_allowed_genres_def)
  have g: "a_genres house_artist = [''pop'', ''deep house'']"
    by (simp add: house_artist_def)
  note t1 = allow_remixes_flag[of "[''pop'', ''deep house'']" example_sp house_artist]
  note t2 = allow_remixes_flag[of "[''indie rock'']" example_sp house_artist]
  from t1 y have a: "\<exists>genre\<in>set [''pop'', ''deep house''].
      \<exists>token\<in>{''house'', ''dub'', ''trance'', ''breakbeat'', ''bass'', ''techno'', ''edm'', ''dance''}.
        sublist token genre" by (rule conjunct1[THEN iffD1])
  from n have b: "\<not> (\<exists>genre\<in>set [''indie rock''].
      \<exists>token\<in>{''house'', ''dub'', ''trance'', ''breakbeat'', ''bass'', ''techno'', ''edm'', ''dance''}.
        sublist token genre)" unfolding t2[THEN conjunct1] .
  from t1 have "snd (fetch_top_songs example_sp house_artist remixes_allowed_genres) ! 1 =
     remix_check_log
       (\<exists>genre\<in>set [''pop'', ''deep house''].
          \<exists>token\<in>{''house'', ''dub'', ''trance'', ''breakbeat'', ''bass'', ''techno'', ''edm'', ''dance''}.
            sublist token genre)"
    unfolding g by (rule conjunct2)
  with a have c: "snd (fetch_top_songs example_sp house_artist remixes_allowed_genres) ! 1 =
     ''  > Remix Check: Genres permit remixes/edits? True''"
    by (simp add: remix_check_log_def str_bool_def)
  from a b c show ?thesis by (intro conjI)
qed

text \<open>
  Claim C6. \<open>fetch_top_songs\<close> returns at most five songs. When the top-tracks call returns,
  the loop examines the first \<open>k\<close> of the first ten tracks and no other; if five songs are
  returned, the last examined track is an accepted one (the fifth), and if fewer are returned,
  all of the first ten were examined.
\<close>

theorem top_songs_cap:
  "length (fst (fetch_top_songs sp a G)) \<le> 5 \<and>
   (artist_top_tracks sp (a_id a) = Inr all_tracks \<longrightarrow>
      (\<exists>k\<le>length (take 10 all_tracks).
         fst (fetch_top_songs sp a G) =
           map (song_of a)
             (filter (accepts (allow_remixes (a_genres a) G)) (take k (take 10 all_tracks))) \<and>
         (all_tracks \<noteq> [] \<longrightarrow>
            snd (fetch_top_songs sp a G) =
              [top_songs_header a, remix_check_log (allow_remixes (a_genres a) G)] @
              map (track_log (allow_remixes (a_genres a) G)) (take k (take 10 all_tracks)) @
              [final_count_log a (length (fst (fetch_top_songs sp a G)))]) \<and>
         (length (fst (fetch_top_songs sp a G)) = 5 \<longrightarrow>
            0 < k \<and> accepts (allow_remixes (a_genres a) G) (all_tracks ! (k - 1))) \<and>
         (length (fst (fetch_top_songs sp a G)) < 5 \<longrightarrow> k = length (take 10 all_tracks))))"
proof (intro conjI impI)
  show "length (fst (fetch_top_songs sp a G)) \<le> 5" by (rule fetch_top_songs_length)
next
  assume "artist_top_tracks sp (a_id a) = Inr all_tracks"
  from fetch_top_songs_examined[OF this, of G]
  show "\<exists>k\<le>length (take 10 all_tracks).
         fst (fetch_top_songs sp a G) =
           map (song_of a)
             (filter (accepts (allow_remixes (a_genres a) G)) (take k (take 10 all_tracks))) \<and>
         (all_tracks \<noteq> [] \<longrightarrow>
            snd (fetch_top_songs sp a G) =
              [top_songs_header a, remix_check_log (allow_remixes (a_genres a) G)] @
              map (track_log (allow_remixes (a_genres a) G)) (take k (take 10 all_tracks)) @
              [final_count_log a (length (fst (fetch_top_songs sp a G)))]) \<and>
         (length (fst (fetch_top_songs sp a G)) = 5 \<longrightarrow>
            0 < k \<and> accepts (allow_remixes (a_genres a) G) (all_tracks ! (k - 1))) \<and>
         (length (fst (fetch_top_songs sp a G)) < 5 \<longrightarrow> k = length (take 10 all_tracks))"
    by blast
qed

lemma is_remix_ten:
  "\<not> is_remix ''Song a''" "\<not> is_remix ''Song b''" "\<not> is_remix ''Song c''"
  "\<not> is_remix ''Song d''" "\<not> is_remix ''Song e''"
  by (simp_all add: is_remix_def lower_def lower_char_def)

lemma scan_ten:
  "scan_tracks False ten_tracks ([], L) = (take 5 ten_tracks, L @ map added_log (take 5 ten_tracks))"
  by (simp add: ten_tracks_def is_remix_ten)

lemma fetch_ten:
  "fetch_top_songs ten_sp rock_artist remixes_allowed_genres =
     (map (song_of rock_artist) (take 5 ten_tracks),
      [top_songs_header rock_artist, remix_check_log False] @
      map added_log (take 5 ten_tracks) @ [final_count_log rock_artist 5])"
proof -
  have r: "allow_remixes (a_genres rock_artist) remixes_allowed_genres = False"
    by (simp add: allow_remixes_def rock_artist_def remixes_allowed_genres_def)
  have h: "artist_top_tracks ten_sp (a_id rock_artist) = Inr ten_tracks"
    by (simp add: ten_sp_def)
  have n: "ten_tracks \<noteq> []" "take 10 ten_tracks = ten_tracks" "length (take 5 ten_tracks) = 5"
    "take 5 (take 5 ten_tracks) = take 5 ten_tracks"
    by (simp_all add: ten_tracks_def)
  show ?thesis
    unfolding fetch_top_songs_def Let_def r h sum.case if_not_P[OF n(1)] n(2) scan_ten prod.case
      length_map n(3) n(4)
    by simp
qed

text \<open>
  Ten acceptable tracks: the first five are returned, and the log holds its two opening lines,
  five lines for the tracks examined and the final count.
\<close>

theorem top_songs_cap_witness:
  "artist_top_tracks ten_sp (a_id rock_artist) = Inr ten_tracks \<and>
   length ten_tracks = 10 \<and>
   length (fst (fetch_top_songs ten_sp rock_artist remixes_allowed_genres)) \<le> 5 \<and>
   map s_id (fst (fetch_top_songs ten_sp rock_artist remixes_allowed_genres)) =
     [''id-a'', ''id-b'', ''id-c'', ''id-d'', ''id-e''] \<and>
   length (snd (fetch_top_songs ten_sp rock_artist remixes_allowed_genres)) = 8"
proof -
  have h: "artist_top_tracks ten_sp (a_id rock_artist) = Inr ten_tracks"
    by (simp add: ten_sp_def)
  have n: "length ten_tracks = 10" by (simp add: ten_tracks_def)
  have 1: "map s_id (fst (fetch_top_songs ten_sp rock_artist remixes_allowed_genres)) =
     [''id-a'', ''id-b'', ''id-c'', ''id-d'', ''id-e'']"
    unfolding fetch_ten by (simp add: ten_tracks_def song_of_def)
  have 2: "length (snd (fetch_top_songs ten_sp rock_artist remixes_allowed_genres)) = 8"
    unfolding fetch_ten by (simp add: ten_tracks_def)
  have 3: "length (fst (fetch_top_songs ten_sp rock_artist remixes_allowed_genres)) \<le> 5"
    by (rule top_songs_cap[THEN conjunct1])
  from h n 3 1 2 show ?thesis by (intro conjI)
qed

section \<open>add_tracks_in_batches\<close>

lemma batch_count_less: "j < batch_count ids \<longleftrightarrow> 100 * j < length ids"
  unfolding batch_count_def by linarith

lemma add_tracks_from_done:
  "\<not> i < length ids \<Longrightarrow> add_tracks_from sp u p ids i eff = (None, eff)"
  by (subst add_tracks_from.simps) simp

lemma add_tracks_from_step:
  assumes "i < length ids"
    and "user_playlist_add_tracks sp u p (take 100 (drop i ids)) = Inr x"
  shows "add_tracks_from sp u p ids i eff =
     add_tracks_from sp u p ids (i + 100)
       (eff\<lparr>calls := calls eff @ [take 100 (drop i ids)],
            info := info eff @ [batch_log (i div 100 + 1) (length (take 100 (drop i ids)))]\<rparr>)"
  using assms by (subst add_tracks_from.simps) (simp add: Let_def)

lemma add_tracks_from_raise:
  assumes "i < length ids"
    and "user_playlist_add_tracks sp u p (take 100 (drop i ids)) = Inl e"
  shows "add_tracks_from sp u p ids i eff =
     (Some e, eff\<lparr>calls := calls eff @ [take 100 (drop i ids)]\<rparr>)"
  using assms by (subst add_tracks_from.simps) (simp add: Let_def)

lemma add_tracks_from_all:
  assumes "\<forall>k<batch_count ids. user_playlist_add_tracks sp u p (slice ids k) = Inr ()"
  shows "j \<le> batch_count ids \<Longrightarrow>
     add_tracks_from sp u p ids (100 * j) eff =
       (None,
        eff\<lparr>calls := calls eff @ map (slice ids) [j..<batch_count ids],
            info := info eff @
              map (\<lambda>k. batch_log (k + 1) (length (slice ids k))) [j..<batch_count ids]\<rparr>)"
proof (induction "batch_count ids - j" arbitrary: j eff)
  case 0
  then have j: "j = batch_count ids" by simp
  then have "\<not> 100 * j < length ids" using batch_count_less[of j ids] by simp
  then show ?case by (simp add: add_tracks_from_done j)
next
  case (Suc d)
  then have lt: "j < batch_count ids" by simp
  then have i: "100 * j < length ids" by (simp add: batch_count_less)
  from assms lt have c: "user_playlist_add_tracks sp u p (take 100 (drop (100 * j) ids)) = Inr ()"
    by (simp add: slice_def)
  have d: "d = batch_count ids - Suc j" using Suc.hyps(2) by simp
  have le: "Suc j \<le> batch_count ids" using lt by simp
  have u: "[j..<batch_count ids] = j # [Suc j..<batch_count ids]"
    using lt by (rule upt_conv_Cons)
  have s: "100 * j + 100 = 100 * Suc j" by simp
  show ?case
    unfolding add_tracks_from_step[OF i c] s Suc.hyps(1)[OF d le] u
    by (simp add: slice_def)
qed

lemma concat_slices: "concat (map (slice ids) [0..<c]) = take (100 * c) ids"
proof (induction c)
  case 0
  show ?case by simp
next
  case (Suc c)
  have "take (100 * Suc c) ids = take (100 * c + 100) ids" by (simp add: add.commute)
  also have "\<dots> = take (100 * c) ids @ take 100 (drop (100 * c) ids)"
    by (simp only: take_add)
  finally show ?case using Suc by (simp add: slice_def)
qed

lemma concat_all_slices: "concat (map (slice ids) [0..<batch_count ids]) = ids"
proof -
  have "length ids \<le> 100 * batch_count ids" unfolding batch_count_def by linarith
  then show ?thesis by (simp add: concat_slices)
qed

lemma slice_length:
  assumes "k < batch_count ids"
  shows "0 < length (slice ids k) \<and> length (slice ids k) \<le> 100"
  using assms by (simp add: slice_def batch_count_less)

lemma ceil_aux: "- (- int n div 100) = int ((n + 99) div 100)"
  by linarith

lemma batch_count_ceiling: "int (batch_count ids) = \<lceil>real (length ids) / 100\<rceil>"
proof -
  have "\<lceil>real (length ids) / 100\<rceil> = \<lceil>real_of_int (int (length ids)) / real_of_int 100\<rceil>"
    by simp
  also have "\<dots> = - (- int (length ids) div 100)"
    by (rule ceiling_divide_eq_div)
  also have "\<dots> = int ((length ids + 99) div 100)" by (rule ceil_aux)
  finally show ?thesis by (simp add: batch_count_def)
qed

lemma str_nat_digit: "n < 10 \<Longrightarrow> str_nat n = [digit_char n]"
  by (subst str_nat.simps) simp

lemma str_nat_tens: "\<not> n < 10 \<Longrightarrow> str_nat n = str_nat (n div 10) @ [digit_char (n mod 10)]"
  by (subst str_nat.simps) simp

lemma str_nat_examples:
  "str_nat 1 = ''1''" "str_nat (Suc 0) = ''1''" "str_nat 2 = ''2''" "str_nat 5 = ''5''"
  "str_nat 50 = ''50''" "str_nat 100 = ''100''"
  by (simp_all add: str_nat_digit str_nat_tens digit_char_def)

lemma add_tracks_in_batches_all:
  assumes "\<forall>k<batch_count ids. user_playlist_add_tracks sp u p (slice ids k) = Inr ()"
  shows "add_tracks_in_batches sp u p ids =
     (None,
      \<lparr>calls = map (slice ids) [0..<batch_count ids],
       info = map (\<lambda>k. batch_log (k + 1) (length (slice ids k))) [0..<batch_count ids]\<rparr>)"
  unfolding add_tracks_in_batches_def
  using add_tracks_from_all[OF assms, of 0 "\<lparr>calls = [], info = []\<rparr>"] by simp

lemma batches_150:
  assumes "length ids = 150"
  shows "map (slice ids) [0..<batch_count ids] = [take 100 ids, drop 100 ids]"
    and "map (\<lambda>k. batch_log (k + 1) (length (slice ids k))) [0..<batch_count ids] =
         [batch_log 1 100, batch_log 2 50]"
proof -
  have c: "batch_count ids = 2" using assms by (simp add: batch_count_def)
  have u: "[0..<2] = [0, Suc 0]" by (simp add: numeral_2_eq_2)
  have s0: "slice ids 0 = take 100 ids" by (simp add: slice_def)
  have s1: "slice ids (Suc 0) = drop 100 ids" using assms by (simp add: slice_def)
  show "map (slice ids) [0..<batch_count ids] = [take 100 ids, drop 100 ids]"
    unfolding c u by (simp add: s0 s1)
  show "map (\<lambda>k. batch_log (k + 1) (length (slice ids k))) [0..<batch_count ids] =
         [batch_log 1 100, batch_log 2 50]"
    unfolding c u using assms by (simp add: s0 s1 numeral_2_eq_2)
qed

text \<open>
  Claim C8. When every call on a slice returns, \<open>add_tracks_in_batches\<close> returns after
  issuing one call per slice of at most 100 ids, in list order, and logging each batch with its
  number (from 1) and its size. The number of calls is the ceiling of \<open>n / 100\<close>, every slice
  is non-empty, and the slices concatenated are the input. For 150 ids there are two calls, the
  first 100 ids and then the other 50, logged as batch 1 and batch 2.
\<close>

theorem add_tracks_in_batches_calls:
  assumes "\<forall>k<batch_count song_ids.
             user_playlist_add_tracks sp username playlist_id (slice song_ids k) = Inr ()"
  shows "add_tracks_in_batches sp username playlist_id song_ids =
           (None,
            \<lparr>calls = map (slice song_ids) [0..<batch_count song_ids],
             info = map (\<lambda>k. batch_log (k + 1) (length (slice song_ids k)))
                      [0..<batch_count song_ids]\<rparr>) \<and>
         int (batch_count song_ids) = \<lceil>real (length song_ids) / 100\<rceil> \<and>
         (\<forall>k<batch_count song_ids.
            slice song_ids k = take 100 (drop (100 * k) song_ids) \<and>
            0 < length (slice song_ids k) \<and> length (slice song_ids k) \<le> 100) \<and>
         concat (map (slice song_ids) [0..<batch_count song_ids]) = song_ids \<and>
         (length song_ids = 150 \<longrightarrow>
            add_tracks_in_batches sp username playlist_id song_ids =
              (None,
               \<lparr>calls = [take 100 song_ids, drop 100 song_ids],
                info = [batch_log 1 100, batch_log 2 50]\<rparr>))"
proof -
  note a = add_tracks_in_batches_all[OF assms]
  have 3: "\<forall>k<batch_count song_ids.
            slice song_ids k = take 100 (drop (100 * k) song_ids) \<and>
            0 < length (slice song_ids k) \<and> length (slice song_ids k) \<le> 100"
    using slice_length[of _ song_ids] by (simp add: slice_def)
  have 5: "length song_ids = 150 \<longrightarrow>
            add_tracks_in_batches sp username playlist_id song_ids =
              (None,
               \<lparr>calls = [take 100 song_ids, drop 100 song_ids],
                info = [batch_log 1 100, batch_log 2 50]\<rparr>)"
  proof
    assume l: "length song_ids = 150"
    show "add_tracks_in_batches sp username playlist_id song_ids =
              (None,
               \<lparr>calls = [take 100 song_ids, drop 100 song_ids],
                info = [batch_log 1 100, batch_log 2 50]\<rparr>)"
      unfolding a batches_150[OF l] ..
  qed
  from a batch_count_ceiling[of song_ids] 3 concat_all_slices[of song_ids] 5
  show ?thesis by (intro conjI)
qed

text \<open>
  A run on 150 distinct ids with a client whose calls all return.
\<close>

theorem add_tracks_in_batches_calls_witness:
  "length example_ids = 150 \<and>
   add_tracks_in_batches example_sp ''user'' ''p1'' example_ids =
     (None,
      \<lparr>calls = [take 100 example_ids, drop 100 example_ids],
       info = [''Added batch 1 (100 tracks) to the playlist.'',
               ''Added batch 2 (50 tracks) to the playlist.'']\<rparr>) \<and>
   take 100 example_ids @ drop 100 example_ids = example_ids \<and>
   length (take 100 example_ids) = 100 \<and> length (drop 100 example_ids) = 50"
proof -
  have l: "length example_ids = 150" by (simp add: example_ids_def)
  have h: "\<forall>k<batch_count example_ids.
             user_playlist_add_tracks example_sp ''user'' ''p1'' (slice example_ids k) = Inr ()"
    by (simp add: example_sp_def)
  from add_tracks_in_batches_calls[OF h] l
  have "add_tracks_in_batches example_sp ''user'' ''p1'' example_ids =
              (None,
               \<lparr>calls = [take 100 example_ids, drop 100 example_ids],
                info = [batch_log 1 100, batch_log 2 50]\<rparr>)"
    by (elim conjE) (erule mp)
  then have 1: "add_tracks_in_batches example_sp ''user'' ''p1'' example_ids =
     (None,
      \<lparr>calls = [take 100 example_ids, drop 100 example_ids],
       info = [''Added batch 1 (100 tracks) to the playlist.'',
               ''Added batch 2 (50 tracks) to the playlist.'']\<rparr>)"
    by (simp add: batch_log_def str_nat_examples)
  have 2: "take 100 example_ids @ drop 100 example_ids = example_ids" by simp
  have 3: "length (take 100 example_ids) = 100" "length (drop 100 example_ids) = 50"
    using l by simp_all
  from l 1 2 3 show ?thesis by (intro conjI)
qed

text \<open>
  A call that raises ends the loop: when the first call raises, it is the only call, nothing
  is logged and the exception leaves the function (\<open>main\<close> catches it at line 124 or 127).
\<close>

lemma add_tracks_in_batches_first_raises:
  assumes "ids \<noteq> []" and "user_playlist_add_tracks sp u p (take 100 ids) = Inl e"
  shows "add_tracks_in_batches sp u p ids = (Some e, \<lparr>calls = [take 100 ids], info = []\<rparr>)"
  unfolding add_tracks_in_batches_def
  using assms add_tracks_from_raise[of 0 ids sp u p e "\<lparr>calls = [], info = []\<rparr>"] by simp

section \<open>fetch_artist_details\<close>

lemma scan_items_unbound:
  "scan_items None nq items =
     (case items of
        [] \<Rightarrow> Inr None
      | it # rest \<Rightarrow>
          if lower (item_name it) = nq then Inr (Some it) else Inl (NameError ''difflib''))"
  by (cases items) (simp_all add: Let_def)

lemma scan_items_bound_Cons:
  "scan_items (Some ratio) (lower q) (it # rest) =
     (if item_matches ratio q it then Inr (Some it) else scan_items (Some ratio) (lower q) rest)"
  by (auto simp: Let_def item_matches_def startswith_prefix)

lemma scan_items_bound:
  "scan_items (Some ratio) (lower q) items = Inr (find (item_matches ratio q) items)"
proof (induction items)
  case Nil
  show ?case by simp
next
  case (Cons it rest)
  show ?case unfolding scan_items_bound_Cons Cons.IH by simp
qed

text \<open>
  With \<open>difflib\<close> bound, a candidate that is no exact match and to which the prefix rule does
  not apply is selected exactly when its ratio is above \<open>9 / 10\<close>; a ratio of \<open>9 / 10\<close>
  itself does not select it.
\<close>

lemma scan_items_bound_threshold:
  assumes "lower (item_name it) \<noteq> lower q"
    and "\<not> (prefix ''the '' (lower q) \<and> lower (item_name it) = drop 4 (lower q))"
  shows "scan_items (Some ratio) (lower q) (it # rest) =
     (if ratio (lower q) (lower (item_name it)) > 9 / 10 then Inr (Some it)
      else scan_items (Some ratio) (lower q) rest)"
  using assms unfolding scan_items_bound_Cons by (auto simp: item_matches_def)

lemma body_search_raises:
  "search sp artist_name = Inl e \<Longrightarrow> fetch_artist_details_body g sp artist_name = Inl e"
  by (simp add: fetch_artist_details_body_def)

lemma body_not_found:
  "search sp artist_name = Inr [] \<Longrightarrow>
   fetch_artist_details_body g sp artist_name = Inr (None, [not_found_log artist_name])"
  by (simp add: fetch_artist_details_body_def)

lemma body_scan_raises:
  assumes "search sp artist_name = Inr items" and "items \<noteq> []"
    and "scan_items g (lower artist_name) items = Inl e"
  shows "fetch_artist_details_body g sp artist_name = Inl e"
  using assms by (simp add: fetch_artist_details_body_def)

lemma body_scan_match:
  assumes "search sp artist_name = Inr items" and "items \<noteq> []"
    and "scan_items g (lower artist_name) items = Inr (Some it)"
  shows "fetch_artist_details_body g sp artist_name =
           Inr (Some (artist_of it), details_logs artist_name it)"
  using assms by (simp add: fetch_artist_details_body_def artist_of_def)

lemma body_scan_no_match:
  assumes "search sp artist_name = Inr items" and "items \<noteq> []"
    and "scan_items g (lower artist_name) items = Inr None"
  shows "fetch_artist_details_body g sp artist_name =
           Inr (None, [no_close_match_log artist_name (item_name (hd items))])"
  using assms by (cases items) (simp_all add: fetch_artist_details_body_def)

lemma scan_items_no_index_error: "scan_items g nq items \<noteq> Inl IndexError"
proof (induction items)
  case Nil
  show ?case by simp
next
  case (Cons it rest)
  then show ?case by (cases g) (simp_all add: Let_def)
qed

text \<open>
  With \<open>difflib\<close> bound, the function returns the first candidate, in the order returned,
  that satisfies one of the three conditions, and no artist when there is none.
\<close>

lemma fetch_artist_details_in_bound:
  assumes "search sp q = Inr items"
  shows "fst (fetch_artist_details_in (Some ratio) sp q) =
           map_option artist_of (find (item_matches ratio q) items)"
proof (cases "items = []")
  case True
  with assms show ?thesis by (simp add: fetch_artist_details_in_def body_not_found)
next
  case False
  show ?thesis
  proof (cases "find (item_matches ratio q) items")
    case None
    then have "scan_items (Some ratio) (lower q) items = Inr None"
      by (simp add: scan_items_bound)
    from body_scan_no_match[OF assms False this] None show ?thesis
      by (simp add: fetch_artist_details_in_def)
  next
    case (Some it)
    then have "scan_items (Some ratio) (lower q) items = Inr (Some it)"
      by (simp add: scan_items_bound)
    from body_scan_match[OF assms False this] Some show ?thesis
      by (simp add: fetch_artist_details_in_def)
  qed
qed

text \<open>
  The module as written: only the first candidate is ever examined. It is selected when it
  equals the query up to case; otherwise the lookup of \<open>difflib\<close> raises.
\<close>

lemma fetch_artist_details_first:
  assumes "search sp q = Inr (it # rest)"
  shows "fetch_artist_details sp q =
     (if lower (item_name it) = lower q then (Some (artist_of it), details_logs q it)
      else (None, [details_error_log q (NameError ''difflib'')]))"
proof (cases "lower (item_name it) = lower q")
  case True
  then have "scan_items None (lower q) (it # rest) = Inr (Some it)"
    by (simp add: scan_items_unbound)
  from body_scan_match[OF assms _ this] True show ?thesis
    by (simp add: fetch_artist_details_def fetch_artist_details_in_def difflib_def)
next
  case False
  then have "scan_items None (lower q) (it # rest) = Inl (NameError ''difflib'')"
    by (simp add: scan_items_unbound)
  from body_scan_raises[OF assms _ this] False show ?thesis
    by (simp add: fetch_artist_details_def fetch_artist_details_in_def difflib_def)
qed

lemma lower_queries:
  "lower ''abc'' = ''abc''" "lower ''xyz'' = ''xyz''" "lower ''xx'' = ''xx''"
  "lower ''The xx'' = ''the xx''"
  "lower ''twenty one pilot'' = ''twenty one pilot''"
  "lower ''Twenty One Pilots'' = ''twenty one pilots''"
  by (simp_all add: lower_def lower_char_def)

lemma difflib_error_text:
  "details_error_log q (NameError ''difflib'') =
     ''[ERROR] Fetching details for '' @ [CHR 0x27] @ q @ [CHR 0x27] @
     '' failed: name 'difflib' is not defined. Skipping.''"
  by (simp add: details_error_log_def)

text \<open>
  Claim C2, at a failing input. The search for "abc" returns "xyz" and then "abc". The first
  candidate is no exact match, so line 160 is reached; \<open>difflib\<close> is not bound, the lookup
  raises, the handler of line 194 returns no artist with an error line, and the exact match in
  second place is never examined. With the name bound (any ratio that gives "abc" and "xyz" no
  more than 0.90; theirs is 0) the second candidate is selected, as the claim says.
\<close>

theorem scan_order_difflib_unbound:
  "fetch_artist_details two_candidates_sp ''abc'' =
     (None, [''[ERROR] Fetching details for 'abc' failed: name 'difflib' is not defined. Skipping.'']) \<and>
   fst (fetch_artist_details_in (Some (\<lambda>a b. 0)) two_candidates_sp ''abc'') =
     Some \<lparr>a_name = ''abc'', a_id = ''i2'', a_genres = []\<rparr>"
proof -
  have s: "search two_candidates_sp ''abc'' =
     Inr [\<lparr>item_name = ''xyz'', item_id = ''i1'', item_genres = []\<rparr>,
          \<lparr>item_name = ''abc'', item_id = ''i2'', item_genres = []\<rparr>]"
    by (simp add: two_candidates_sp_def)
  have 1: "fetch_artist_details two_candidates_sp ''abc'' =
     (None, [''[ERROR] Fetching details for 'abc' failed: name 'difflib' is not defined. Skipping.''])"
    unfolding fetch_artist_details_first[OF s] by (simp add: lower_queries difflib_error_text)
  have 2: "fst (fetch_artist_details_in (Some (\<lambda>a b. 0)) two_candidates_sp ''abc'') =
     Some \<lparr>a_name = ''abc'', a_id = ''i2'', a_genres = []\<rparr>"
    unfolding fetch_artist_details_in_bound[OF s]
    by (simp add: item_matches_def lower_queries artist_of_def)
  from 1 2 show ?thesis ..
qed

text \<open>
  Claim C3, at a failing input. The only candidate for "twenty one pilot" is "Twenty One
  Pilots", whose ratio to the query is \<open>32 / 33\<close>, above 0.90. The run ends in the handler
  with no artist, since the ratio cannot be computed; with the name bound to a function that
  returns this ratio the candidate is selected.
\<close>

theorem similarity_difflib_unbound:
  "fetch_artist_details similar_sp ''twenty one pilot'' =
     (None, [''[ERROR] Fetching details for 'twenty one pilot' failed: name 'difflib' is not defined. Skipping.'']) \<and>
   fst (fetch_artist_details_in (Some (\<lambda>a b. 32 / 33)) similar_sp ''twenty one pilot'') =
     Some \<lparr>a_name = ''Twenty One Pilots'', a_id = ''i3'', a_genres = [''pop'']\<rparr>"
proof -
  have s: "search similar_sp ''twenty one pilot'' =
     Inr [\<lparr>item_name = ''Twenty One Pilots'', item_id = ''i3'', item_genres = [''pop'']\<rparr>]"
    by (simp add: similar_sp_def)
  have 1: "fetch_artist_details similar_sp ''twenty one pilot'' =
     (None, [''[ERROR] Fetching details for 'twenty one pilot' failed: name 'difflib' is not defined. Skipping.''])"
    unfolding fetch_artist_details_first[OF s] by (simp add: lower_queries difflib_error_text)
  have 2: "fst (fetch_artist_details_in (Some (\<lambda>a b. 32 / 33)) similar_sp ''twenty one pilot'') =
     Some \<lparr>a_name = ''Twenty One Pilots'', a_id = ''i3'', a_genres = [''pop'']\<rparr>"
    unfolding fetch_artist_details_in_bound[OF s]
    by (simp add: item_matches_def lower_queries artist_of_def)
  from 1 2 show ?thesis ..
qed

text \<open>
  Claim C4, at a failing input. The query "The xx" begins with "the " and the candidate "xx"
  equals the rest, but line 166 is never reached: line 160 raises first. With the name bound
  (their ratio is \<open>1 / 2\<close>) the candidate is selected by the prefix rule.
\<close>

theorem the_prefix_difflib_unbound:
  "fetch_artist_details the_sp ''The xx'' =
     (None, [''[ERROR] Fetching details for 'The xx' failed: name 'difflib' is not defined. Skipping.'']) \<and>
   fst (fetch_artist_details_in (Some (\<lambda>a b. 1 / 2)) the_sp ''The xx'') =
     Some \<lparr>a_name = ''xx'', a_id = ''i4'', a_genres = [''indie'']\<rparr>"
proof -
  have s: "search the_sp ''The xx'' =
     Inr [\<lparr>item_name = ''xx'', item_id = ''i4'', item_genres = [''indie'']\<rparr>]"
    by (simp add: the_sp_def)
  have 1: "fetch_artist_details the_sp ''The xx'' =
     (None, [''[ERROR] Fetching details for 'The xx' failed: name 'difflib' is not defined. Skipping.''])"
    unfolding fetch_artist_details_first[OF s] by (simp add: lower_queries difflib_error_text)
  have 2: "fst (fetch_artist_details_in (Some (\<lambda>a b. 1 / 2)) the_sp ''The xx'') =
     Some \<lparr>a_name = ''xx'', a_id = ''i4'', a_genres = [''indie'']\<rparr>"
    unfolding fetch_artist_details_in_bound[OF s]
    by (simp add: item_matches_def lower_queries artist_of_def)
  from 1 2 show ?thesis ..
qed

lemma error_log_prefixes:
  "prefix ''[ERROR]'' (details_error_log artist_name e)"
  "prefix ''[ERROR]'' (top_songs_error_log a e)"
  by (cases e; simp add: details_error_log_def)+

text \<open>
  Claim C9. Whatever exception the body of \<open>fetch_artist_details\<close> raises, the function
  returns no artist and one line that starts with \<open>[ERROR]\<close>; this holds in particular when
  the search raises. When the top-tracks call raises, \<open>fetch_top_songs\<close> returns no songs
  and its two opening lines followed by one line that starts with \<open>[ERROR]\<close>. Both
  functions return a value on every input.
\<close>

theorem worker_error_containment:
  "(fetch_artist_details_body g sp artist_name = Inl e \<longrightarrow>
      fetch_artist_details_in g sp artist_name = (None, [details_error_log artist_name e])) \<and>
   (search sp artist_name = Inl e \<longrightarrow>
      fetch_artist_details sp artist_name = (None, [details_error_log artist_name e])) \<and>
   prefix ''[ERROR]'' (details_error_log artist_name e) \<and>
   (artist_top_tracks sp (a_id a) = Inl e \<longrightarrow>
      fetch_top_songs sp a G =
        ([], [top_songs_header a, remix_check_log (allow_remixes (a_genres a) G),
              top_songs_error_log a e])) \<and>
   prefix ''[ERROR]'' (top_songs_error_log a e)"
proof (intro conjI impI)
  assume "fetch_artist_details_body g sp artist_name = Inl e"
  then show "fetch_artist_details_in g sp artist_name = (None, [details_error_log artist_name e])"
    by (simp add: fetch_artist_details_in_def)
next
  assume "search sp artist_name = Inl e"
  then have "fetch_artist_details_body difflib sp artist_name = Inl e"
    by (rule body_search_raises)
  then show "fetch_artist_details sp artist_name = (None, [details_error_log artist_name e])"
    by (simp add: fetch_artist_details_def fetch_artist_details_in_def)
next
  show "prefix ''[ERROR]'' (details_error_log artist_name e)" by (rule error_log_prefixes)
next
  assume "artist_top_tracks sp (a_id a) = Inl e"
  then show "fetch_top_songs sp a G =
        ([], [top_songs_header a, remix_check_log (allow_remixes (a_genres a) G),
              top_songs_error_log a e])"
    by (rule fetch_top_songs_error)
next
  show "prefix ''[ERROR]'' (top_songs_error_log a e)" by (rule error_log_prefixes)
qed

text \<open>
  A client whose calls all raise \<open>SpotifyException\<close>.
\<close>

theorem worker_error_containment_witness:
  "search failing_sp ''Band'' = Inl (SpotifyException ''http status: 429'') \<and>
   fetch_artist_details failing_sp ''Band'' =
     (None, [''[ERROR] Fetching details for 'Band' failed: http status: 429. Skipping.'']) \<and>
   artist_top_tracks failing_sp (a_id rock_artist) = Inl (SpotifyException ''http status: 429'') \<and>
   fetch_top_songs failing_sp rock_artist remixes_allowed_genres =
     ([], [[CHR 0x0A] @ ''--- Top Songs: Band (a1) ---'',
           ''  > Remix Check: Genres permit remixes/edits? False'',
           ''[ERROR] Spotify API Error fetching tracks for Band: http status: 429. Skipping.''])"
proof -
  have s: "search failing_sp ''Band'' = Inl (SpotifyException ''http status: 429'')"
    by (simp add: failing_sp_def)
  have t: "artist_top_tracks failing_sp (a_id rock_artist) = Inl (SpotifyException ''http status: 429'')"
    by (simp add: failing_sp_def)
  have r: "allow_remixes (a_genres rock_artist) remixes_allowed_genres = False"
    by (simp add: allow_remixes_def rock_artist_def remixes_allowed_genres_def)
  note w = worker_error_containment[of _ failing_sp "''Band''" "SpotifyException ''http status: 429''"
      rock_artist remixes_allowed_genres]
  from s have "fetch_artist_details failing_sp ''Band'' =
      (None, [details_error_log ''Band'' (SpotifyException ''http status: 429'')])"
    by (rule w[THEN conjunct2, THEN conjunct1, THEN mp])
  then have 1: "fetch_artist_details failing_sp ''Band'' =
     (None, [''[ERROR] Fetching details for 'Band' failed: http status: 429. Skipping.''])"
    by (simp add: details_error_log_def)
  from t have "fetch_top_songs failing_sp rock_artist remixes_allowed_genres =
        ([], [top_songs_header rock_artist,
              remix_check_log (allow_remixes (a_genres rock_artist) remixes_allowed_genres),
              top_songs_error_log rock_artist (SpotifyException ''http status: 429'')])"
    by (rule w[THEN conjunct2, THEN conjunct2, THEN conjunct2, THEN conjunct1, THEN mp])
  then have 2: "fetch_top_songs failing_sp rock_artist remixes_allowed_genres =
     ([], [[CHR 0x0A] @ ''--- Top Songs: Band (a1) ---'',
           ''  > Remix Check: Genres permit remixes/edits? False'',
           ''[ERROR] Spotify API Error fetching tracks for Band: http status: 429. Skipping.''])"
    unfolding r by (simp add: top_songs_header_def remix_check_log_def str_bool_def rock_artist_def)
  from s 1 t 2 show ?thesis by (intro conjI)
qed

text \<open>
  Claim C10. For every candidate list the search returns, the body of
  \<open>fetch_artist_details\<close> never raises \<open>IndexError\<close>: an empty list returns at line 145,
  and when the scan of a non-empty list ends with no match, line 172 reads its first element
  and the warning names it.
\<close>

theorem no_match_diagnostic_in_bounds:
  "(search sp artist_name = Inr items \<longrightarrow>
      fetch_artist_details_body g sp artist_name \<noteq> Inl IndexError) \<and>
   (search sp artist_name = Inr [] \<longrightarrow>
      fetch_artist_details_in g sp artist_name = (None, [not_found_log artist_name])) \<and>
   (search sp artist_name = Inr items \<and> items \<noteq> [] \<and>
    scan_items g (lower artist_name) items = Inr None \<longrightarrow>
      (\<exists>top_result rest. items = top_result # rest \<and>
         fetch_artist_details_in g sp artist_name =
           (None, [no_close_match_log artist_name (item_name top_result)])))"
proof (intro conjI impI)
  assume s: "search sp artist_name = Inr items"
  show "fetch_artist_details_body g sp artist_name \<noteq> Inl IndexError"
  proof (cases "items = []")
    case True
    with s show ?thesis by (simp add: body_not_found)
  next
    case False
    show ?thesis
    proof (cases "scan_items g (lower artist_name) items")
      case (Inl e)
      with scan_items_no_index_error[of g "lower artist_name" items] have "e \<noteq> IndexError" by auto
      with body_scan_raises[OF s False Inl] show ?thesis by simp
    next
      case (Inr r)
      show ?thesis
      proof (cases r)
        case None
        with body_scan_no_match[OF s False] Inr show ?thesis by simp
      next
        case (Some it)
        with body_scan_match[OF s False] Inr show ?thesis by simp
      qed
    qed
  qed
next
  assume "search sp artist_name = Inr []"
  then show "fetch_artist_details_in g sp artist_name = (None, [not_found_log artist_name])"
    by (simp add: fetch_artist_details_in_def body_not_found)
next
  assume a: "search sp artist_name = Inr items \<and> items \<noteq> [] \<and>
    scan_items g (lower artist_name) items = Inr None"
  then obtain top_result rest where i: "items = top_result # rest" by (cases items) auto
  from a have "fetch_artist_details_body g sp artist_name =
           Inr (None, [no_close_match_log artist_name (item_name (hd items))])"
    by (intro body_scan_no_match) simp_all
  then have "fetch_artist_details_in g sp artist_name =
           (None, [no_close_match_log artist_name (item_name top_result)])"
    by (simp add: fetch_artist_details_in_def i)
  with i show "\<exists>top_result rest. items = top_result # rest \<and>
         fetch_artist_details_in g sp artist_name =
           (None, [no_close_match_log artist_name (item_name top_result)])"
    by blast
qed

text \<open>
  A scan that ends with no match (with \<open>difflib\<close> bound; the one candidate has ratio 0).
\<close>

theorem no_match_diagnostic_in_bounds_witness:
  "search no_match_sp ''abc'' = Inr [\<lparr>item_name = ''xyz'', item_id = ''i1'', item_genres = []\<rparr>] \<and>
   scan_items (Some (\<lambda>a b. 0)) (lower ''abc'')
     [\<lparr>item_name = ''xyz'', item_id = ''i1'', item_genres = []\<rparr>] = Inr None \<and>
   fetch_artist_details_body (Some (\<lambda>a b. 0)) no_match_sp ''abc'' \<noteq> Inl IndexError \<and>
   fetch_artist_details_in (Some (\<lambda>a b. 0)) no_match_sp ''abc'' =
     (None, [''[WARNING] Artist: 'abc' has no close match in top 5. Top result was 'xyz'. Skipping.''])"
proof -
  let ?items = "[\<lparr>item_name = ''xyz'', item_id = ''i1'', item_genres = []\<rparr>]"
  have s: "search no_match_sp ''abc'' = Inr ?items" by (simp add: no_match_sp_def)
  have n: "scan_items (Some (\<lambda>a b. 0)) (lower ''abc'') ?items = Inr None"
    by (simp add: scan_items_bound item_matches_def lower_queries)
  note w = no_match_diagnostic_in_bounds[of no_match_sp "''abc''" ?items "Some (\<lambda>a b. 0)"]
  from s have 1: "fetch_artist_details_body (Some (\<lambda>a b. 0)) no_match_sp ''abc'' \<noteq> Inl IndexError"
    by (rule w[THEN conjunct1, THEN mp])
  from w s n have "\<exists>top_result rest. ?items = top_result # rest \<and>
         fetch_artist_details_in (Some (\<lambda>a b. 0)) no_match_sp ''abc'' =
           (None, [no_close_match_log ''abc'' (item_name top_result)])"
    by simp
  then have 2: "fetch_artist_details_in (Some (\<lambda>a b. 0)) no_match_sp ''abc'' =
     (None, [''[WARNING] Artist: 'abc' has no close match in top 5. Top result was 'xyz'. Skipping.''])"
    by (auto simp: no_close_match_log_def)
  from s n 1 2 show ?thesis by (intro conjI)
qed

section \<open>main\<close>

lemma append_songs: "foldl (\<lambda>details song. details @ [song]) acc xs = acc @ xs"
  by (induction xs arbitrary: acc) simp_all

lemma collect_artists_eq:
  "collect_artists rs (valid_artists, all_logs) =
     (valid_artists @ List.map_filter fst rs, all_logs @ concat (map snd rs))"
proof (induction rs arbitrary: valid_artists all_logs)
  case Nil
  show ?case by (simp add: List.map_filter_simps)
next
  case (Cons r rs)
  obtain artist_data logs where r: "r = (artist_data, logs)" by (cases r)
  show ?case unfolding r
    by (cases artist_data) (simp_all add: Cons.IH List.map_filter_simps)
qed

lemma collect_songs_eq:
  "collect_songs rs (all_song_details, all_logs) =
     (all_song_details @ concat (map fst rs), all_logs @ concat (map snd rs))"
proof (induction rs arbitrary: all_song_details all_logs)
  case Nil
  show ?case by simp
next
  case (Cons r rs)
  obtain artist_songs logs where r: "r = (artist_songs, logs)" by (cases r)
  show ?case unfolding r by (simp add: Cons.IH append_songs)
qed

lemma phase1_eq:
  "fst (phase1 sp artists) = List.map_filter (\<lambda>name. fst (fetch_artist_details sp name)) artists"
  by (simp add: phase1_def collect_artists_eq List.map_filter_def filter_map comp_def)

lemma phase2_eq:
  "fst (phase2 sp valid_artists) =
     concat (map (\<lambda>details. fst (fetch_top_songs sp details remixes_allowed_genres)) valid_artists)"
  by (simp add: phase2_def collect_songs_eq comp_def)

lemma main_song_ids_eq:
  "main_song_ids sp artists =
     (if fst (phase1 sp artists) = [] then None
      else if fst (phase2 sp (fst (phase1 sp artists))) = [] then None
      else Some (map s_id (fst (phase2 sp (fst (phase1 sp artists))))))"
  by (simp add: main_song_ids_def split: prod.splits)

lemma band_search:
  "search festival_sp ''Band'' =
     Inr [\<lparr>item_name = ''Band'', item_id = ''a1'', item_genres = [''indie rock'']\<rparr>]"
  "search festival_sp ''nobody'' = Inr []"
  "search festival_sp ''deejay'' =
     Inr [\<lparr>item_name = ''Deejay'', item_id = ''a2'', item_genres = [''pop'', ''deep house'']\<rparr>]"
  by (simp_all add: festival_sp_def)

lemma lower_festival:
  "lower ''Band'' = ''band''" "lower ''Deejay'' = ''deejay''" "lower ''deejay'' = ''deejay''"
  by (simp_all add: lower_def lower_char_def)

lemma festival_artists:
  "fst (fetch_artist_details festival_sp ''Band'') = Some rock_artist"
  "fst (fetch_artist_details festival_sp ''nobody'') = None"
  "fst (fetch_artist_details festival_sp ''deejay'') = Some house_artist"
proof -
  show "fst (fetch_artist_details festival_sp ''Band'') = Some rock_artist"
    unfolding fetch_artist_details_first[OF band_search(1)]
    by (simp add: artist_of_def rock_artist_def)
  show "fst (fetch_artist_details festival_sp ''nobody'') = None"
    using band_search(2)
    by (simp add: fetch_artist_details_def fetch_artist_details_in_def body_not_found)
  show "fst (fetch_artist_details festival_sp ''deejay'') = Some house_artist"
    unfolding fetch_artist_details_first[OF band_search(3)]
    by (simp add: artist_of_def house_artist_def lower_festival)
qed

lemma festival_songs:
  "map s_id (fst (fetch_top_songs festival_sp rock_artist remixes_allowed_genres)) = [''t1'', ''t3'']"
  "map s_id (fst (fetch_top_songs festival_sp house_artist remixes_allowed_genres)) =
     [''t1'', ''t2'', ''t3'', ''t4'']"
proof -
  have r: "\<not> allow_remixes (a_genres rock_artist) remixes_allowed_genres"
    by (simp add: allow_remixes_def rock_artist_def remixes_allowed_genres_def)
  have hs: "allow_remixes (a_genres house_artist) remixes_allowed_genres"
    by (simp add: allow_remixes_def house_artist_def remixes_allowed_genres_def)
  show "map s_id (fst (fetch_top_songs festival_sp rock_artist remixes_allowed_genres)) = [''t1'', ''t3'']"
    by (simp add: fetch_top_songs_def r festival_sp_def example_tracks_def is_remix_examples song_of_def)
  show "map s_id (fst (fetch_top_songs festival_sp house_artist remixes_allowed_genres)) =
     [''t1'', ''t2'', ''t3'', ''t4'']"
    by (simp add: fetch_top_songs_def hs festival_sp_def example_tracks_def song_of_def)
qed

lemma festival_valid:
  "List.map_filter (\<lambda>name. fst (fetch_artist_details festival_sp name)) [''Band'', ''nobody'', ''deejay''] =
     [rock_artist, house_artist]"
  by (simp add: List.map_filter_simps festival_artists)

text \<open>
  Claim C7. When the run reaches phase 3, \<open>song_ids\<close> is the concatenation, over the artists
  that \<open>fetch_artist_details\<close> resolved, in the order of the input, of the ids of the songs
  \<open>fetch_top_songs\<close> returned for each: at most five per artist, in the order the loop
  accepted them (the order of the fetched tracks). It is this list that \<open>main\<close> passes to
  \<open>add_tracks_in_batches\<close>.
\<close>

theorem track_list_invariant:
  assumes "main_song_ids sp artists = Some song_ids"
  shows "song_ids =
           concat (map (\<lambda>details. map s_id (fst (fetch_top_songs sp details remixes_allowed_genres)))
                     (List.map_filter (\<lambda>name. fst (fetch_artist_details sp name)) artists)) \<and>
         (\<forall>details. length (fst (fetch_top_songs sp details remixes_allowed_genres)) \<le> 5) \<and>
         (\<forall>details all_tracks.
            artist_top_tracks sp (a_id details) = Inr all_tracks \<longrightarrow>
              (\<exists>k. map s_id (fst (fetch_top_songs sp details remixes_allowed_genres)) =
                 map track_id
                   (filter (accepts (allow_remixes (a_genres details) remixes_allowed_genres))
                      (take k (take 10 all_tracks))))) \<and>
         (\<forall>username playlist_id.
            user_playlist_create sp username playlist_name = Inr playlist_id \<longrightarrow>
              main sp username artists =
                calls (snd (add_tracks_in_batches sp username playlist_id song_ids)))"
proof (intro conjI allI impI)
  from assms have "song_ids = map s_id (fst (phase2 sp (fst (phase1 sp artists))))"
    by (simp add: main_song_ids_eq split: if_splits)
  then show "song_ids =
           concat (map (\<lambda>details. map s_id (fst (fetch_top_songs sp details remixes_allowed_genres)))
                     (List.map_filter (\<lambda>name. fst (fetch_artist_details sp name)) artists))"
    by (simp add: phase1_eq phase2_eq map_concat comp_def)
next
  fix details :: artist_data
  show "length (fst (fetch_top_songs sp details remixes_allowed_genres)) \<le> 5"
    by (rule fetch_top_songs_length)
next
  fix details :: artist_data and all_tracks
  assume "artist_top_tracks sp (a_id details) = Inr all_tracks"
  from fetch_top_songs_examined[OF this, of remixes_allowed_genres] obtain k where
    "fst (fetch_top_songs sp details remixes_allowed_genres) =
       map (song_of details)
         (filter (accepts (allow_remixes (a_genres details) remixes_allowed_genres))
            (take k (take 10 all_tracks)))"
    by blast
  then have "map s_id (fst (fetch_top_songs sp details remixes_allowed_genres)) =
                 map track_id
                   (filter (accepts (allow_remixes (a_genres details) remixes_allowed_genres))
                      (take k (take 10 all_tracks)))"
    by (simp add: song_of_def comp_def)
  then show "\<exists>k. map s_id (fst (fetch_top_songs sp details remixes_allowed_genres)) =
                 map track_id
                   (filter (accepts (allow_remixes (a_genres details) remixes_allowed_genres))
                      (take k (take 10 all_tracks)))" ..
next
  fix username playlist_id
  assume "user_playlist_create sp username playlist_name = Inr playlist_id"
  with assms show "main sp username artists =
                calls (snd (add_tracks_in_batches sp username playlist_id song_ids))"
    by (simp add: main_def)
qed

lemma main_song_ids_concat:
  "main_song_ids sp artists =
     (if List.map_filter (\<lambda>name. fst (fetch_artist_details sp name)) artists = [] then None
      else if concat (map (\<lambda>details. map s_id (fst (fetch_top_songs sp details remixes_allowed_genres)))
                     (List.map_filter (\<lambda>name. fst (fetch_artist_details sp name)) artists)) = []
      then None
      else Some (concat (map (\<lambda>details. map s_id (fst (fetch_top_songs sp details remixes_allowed_genres)))
                     (List.map_filter (\<lambda>name. fst (fetch_artist_details sp name)) artists))))"
proof -
  have m: "map s_id (fst (phase2 sp vs)) =
      concat (map (\<lambda>details. map s_id (fst (fetch_top_songs sp details remixes_allowed_genres))) vs)"
    for vs
    by (simp add: phase2_eq map_concat comp_def)
  have e: "fst (phase2 sp vs) = [] \<longleftrightarrow> map s_id (fst (phase2 sp vs)) = []" for vs
    by simp
  show ?thesis
    unfolding main_song_ids_eq e m phase1_eq ..
qed

lemma festival_ids:
  "main_song_ids festival_sp [''Band'', ''nobody'', ''deejay''] =
     Some [''t1'', ''t3'', ''t1'', ''t2'', ''t3'', ''t4'']"
  unfolding main_song_ids_concat festival_valid by (simp add: festival_songs)

text \<open>
  Three names, the second with no search result: the two resolved artists contribute two and
  four ids, in this order.
\<close>

theorem track_list_invariant_witness:
  "main_song_ids festival_sp [''Band'', ''nobody'', ''deejay''] =
     Some [''t1'', ''t3'', ''t1'', ''t2'', ''t3'', ''t4''] \<and>
   List.map_filter (\<lambda>name. fst (fetch_artist_details festival_sp name)) [''Band'', ''nobody'', ''deejay''] =
     [rock_artist, house_artist] \<and>
   [''t1'', ''t3'', ''t1'', ''t2'', ''t3'', ''t4''] =
     concat (map (\<lambda>details. map s_id (fst (fetch_top_songs festival_sp details remixes_allowed_genres)))
               (List.map_filter (\<lambda>name. fst (fetch_artist_details festival_sp name))
                  [''Band'', ''nobody'', ''deejay''])) \<and>
   main festival_sp ''user'' [''Band'', ''nobody'', ''deejay''] =
     calls (snd (add_tracks_in_batches festival_sp ''user'' ''p1''
                   [''t1'', ''t3'', ''t1'', ''t2'', ''t3'', ''t4'']))"
proof -
  note w = track_list_invariant[OF festival_ids]
  have c: "user_playlist_create festival_sp ''user'' playlist_name = Inr ''p1''"
    by (simp add: festival_sp_def)
  have 4: "main festival_sp ''user'' [''Band'', ''nobody'', ''deejay''] =
     calls (snd (add_tracks_in_batches festival_sp ''user'' ''p1''
                   [''t1'', ''t3'', ''t1'', ''t2'', ''t3'', ''t4'']))"
    using w[THEN conjunct2, THEN conjunct2, THEN conjunct2, THEN spec, THEN spec, THEN mp, OF c] .
  from festival_ids festival_valid w[THEN conjunct1] 4 show ?thesis by (intro conjI)
qed

end
